theory Spec2Isabelle
  imports Main "HOL-Library.Word"
begin

section \<open>Memory regions\<close>

text \<open>
  \<open>ram_addr_t\<close> and \<open>uint64_t\<close> are 64-bit unsigned integers: subtraction wraps
  around, comparison is unsigned. A \<open>MemoryRegion\<close> is represented by its name and size;
  \<open>memory_region_add_subregion\<close> appends a pair (offset, region) to the list of
  subregions of the container, in call order.
\<close>

type_synonym ram_addr_t = "64 word"

record MemoryRegion =
  mr_name :: string
  mr_size :: ram_addr_t

type_synonym subregions = "(ram_addr_t \<times> MemoryRegion) list"

definition memory_region_init_ram :: "string \<Rightarrow> ram_addr_t \<Rightarrow> MemoryRegion" where
  "memory_region_init_ram name sz = \<lparr>mr_name = name, mr_size = sz\<rparr>"

definition memory_region_add_subregion ::
  "subregions \<Rightarrow> ram_addr_t \<Rightarrow> MemoryRegion \<Rightarrow> subregions" where
  "memory_region_add_subregion mr offset subregion = mr @ [(offset, subregion)]"

text \<open>Fatal ends of the process: \<open>exit(1)\<close> after a diagnostic, or \<open>abort()\<close>.\<close>

datatype error = Exit string | Abort

section \<open>Secondary boot code\<close>

text \<open>
  Byte order. \<open>bytes32 e x\<close> is the memory image of the 32-bit value \<open>x\<close> on a machine
  of byte order \<open>e\<close>: what \<open>rom_add_blob_fixed\<close> copies out of a host array, and what a
  CPU of that byte order must find in memory to fetch \<open>x\<close>.
\<close>

datatype endianness = LittleEndian | BigEndian

definition bytes32 :: "endianness \<Rightarrow> 32 word \<Rightarrow> 8 word list" where
  "bytes32 e x =
     (let le = [ucast x, ucast (drop_bit 8 x), ucast (drop_bit 16 x), ucast (drop_bit 24 x)]
      in case e of LittleEndian \<Rightarrow> le | BigEndian \<Rightarrow> rev le)"

definition bswap32 :: "32 word \<Rightarrow> 32 word" where
  "bswap32 x = or (or (push_bit 24 (and x 0xff)) (push_bit 8 (and x 0xff00)))
                  (or (drop_bit 8 (and x 0xff0000)) (drop_bit 24 x))"

text \<open>
  \<open>tswap32\<close> is a macro of the target headers: the identity when host and target have
  the same byte order, a byte swap otherwise. Host and target byte order are parameters.
\<close>

definition tswap32 :: "endianness \<Rightarrow> endianness \<Rightarrow> 32 word \<Rightarrow> 32 word" where
  "tswap32 host target x = (if host = target then x else bswap32 x)"

text \<open>
  The process-global state of the boot code: the static array \<open>zynq_smpboot\<close> and the
  ROM blobs registered so far (name, bytes, address), in call order.
\<close>

record boot_state =
  zynq_smpboot :: "32 word list"
  roms :: "(string \<times> 8 word list \<times> 64 word) list"

definition boot_state_init :: boot_state where
  "boot_state_init = \<lparr>zynq_smpboot = [0xe320f003, 0xeafffffd], roms = []\<rparr>"

definition SMP_BOOT_ADDR :: "64 word" where
  "SMP_BOOT_ADDR = 0xfffffff0"

definition SMP_BOOTREG_ADDR :: "64 word" where
  "SMP_BOOTREG_ADDR = 0xfffffffc"

definition rom_add_blob_fixed ::
  "string \<Rightarrow> 8 word list \<Rightarrow> 64 word \<Rightarrow> boot_state \<Rightarrow> boot_state" where
  "rom_add_blob_fixed name blob addr s = s\<lparr>roms := roms s @ [(name, blob, addr)]\<rparr>"

text \<open>
  \<open>arm_write_secondary_boot\<close>, lines 292-302: every element of the global array is
  replaced by its \<open>tswap32\<close>, then the whole array (\<open>sizeof(zynq_smpboot)\<close> bytes of host
  memory) is registered at \<open>SMP_BOOT_ADDR\<close>.
\<close>

definition arm_write_secondary_boot :: "endianness \<Rightarrow> endianness \<Rightarrow> boot_state \<Rightarrow> boot_state" where
  "arm_write_secondary_boot host target s =
     (let s1 = s\<lparr>zynq_smpboot := map (tswap32 host target) (zynq_smpboot s)\<rparr>
      in rom_add_blob_fixed ''smpboot'' (concat (map (bytes32 host) (zynq_smpboot s1)))
           SMP_BOOT_ADDR s1)"

section \<open>The boot descriptor\<close>

text \<open>
  \<open>struct arm_boot_info\<close>: the fields the two board models assign, but for \<open>fdt\<close> and
  \<open>fdt_size\<close>. \<open>write_secondary_boot\<close> is a function pointer, \<open>None\<close> for \<open>NULL\<close>.
  Both static descriptors are zero-initialised (\<open>= {}\<close>).
\<close>

record arm_boot_info =
  bi_ram_size :: ram_addr_t
  bi_kernel_filename :: "string option"
  bi_kernel_cmdline :: "string option"
  bi_initrd_filename :: "string option"
  bi_nb_cpus :: nat
  bi_board_id :: nat
  bi_loader_start :: ram_addr_t
  bi_smp_loader_start :: ram_addr_t
  bi_smp_bootreg_addr :: ram_addr_t
  bi_write_secondary_boot :: "(boot_state \<Rightarrow> boot_state) option"
  bi_secure_boot :: bool

definition zero_binfo :: arm_boot_info where
  "zero_binfo = \<lparr>bi_ram_size = 0, bi_kernel_filename = None, bi_kernel_cmdline = None,
     bi_initrd_filename = None, bi_nb_cpus = 0, bi_board_id = 0, bi_loader_start = 0,
     bi_smp_loader_start = 0, bi_smp_bootreg_addr = 0, bi_write_secondary_boot = None,
     bi_secure_boot = False\<rparr>"

text \<open>
  Modelled from the spec: \<open>arm_load_kernel\<close> (the external kernel loader, not part of
  this file). Of its work only the secondary-core hook is represented: for multi-core
  configurations (\<open>nb_cpus > 1\<close>) it calls the descriptor's \<open>write_secondary_boot\<close>
  hook. What the loader does for a descriptor without hook is not represented.
\<close>

definition arm_load_kernel :: "arm_boot_info \<Rightarrow> boot_state \<Rightarrow> boot_state" where
  "arm_load_kernel info s =
     (if 1 < bi_nb_cpus info
      then (case bi_write_secondary_boot info of
              None \<Rightarrow> s
            | Some write_secondary_boot \<Rightarrow> write_secondary_boot s)
      else s)"

section \<open>The legacy board: \<open>zynq_init\<close>\<close>

record QEMUMachineInitArgs =
  args_ram_size :: ram_addr_t
  args_cpu_model :: "string option"
  args_kernel_filename :: "string option"
  args_kernel_cmdline :: "string option"
  args_initrd_filename :: "string option"

text \<open>
  What \<open>zynq_init\<close> leaves: the subregions of the system memory, the static descriptor
  \<open>zynq_binfo\<close>, and the lines written to standard error.
\<close>

record zynq_board =
  zb_system_memory :: subregions
  zb_binfo :: arm_boot_info
  zb_stderr :: "string list"

text \<open>
  \<open>zynq_init\<close>, lines 122-227. \<open>cpu_arm_init\<close> is passed in as the predicate telling
  whether a CPU model is known. The peripherals created between the two RAM regions and
  the boot descriptor (flash, SLCR, MPCore, I2C, SPI, USB, UART, TTC, GEM) do not touch
  \<open>ram_size\<close>, the system memory map entries for RAM, or standard error, and are left
  out, as is the final call of \<open>arm_load_kernel\<close> on the descriptor.
\<close>

definition zynq_init ::
  "(string \<Rightarrow> bool) \<Rightarrow> QEMUMachineInitArgs \<Rightarrow> error + zynq_board" where
  "zynq_init cpu_arm_init args =
     (let ram_size = args_ram_size args;
          cpu_model = (case args_cpu_model args of None \<Rightarrow> ''cortex-a9'' | Some m \<Rightarrow> m)
      in if \<not> cpu_arm_init cpu_model then Inl (Exit ''Unable to find CPU definition'')
         else
           let ram_size = (if ram_size > 0x80000000 then 0x80000000 else ram_size);
               ext_ram = memory_region_init_ram ''zynq.ext_ram'' ram_size;
               mem1 = memory_region_add_subregion [] 0 ext_ram;
               ocm_ram = memory_region_init_ram ''zynq.ocm_ram'' (push_bit 10 256);
               mem2 = memory_region_add_subregion mem1 0xFFFC0000 ocm_ram
           in Inr \<lparr>zb_system_memory = mem2,
                   zb_binfo = zero_binfo\<lparr>bi_ram_size := ram_size,
                     bi_kernel_filename := args_kernel_filename args,
                     bi_kernel_cmdline := args_kernel_cmdline args,
                     bi_initrd_filename := args_initrd_filename args,
                     bi_nb_cpus := 1, bi_board_id := 0xd32, bi_loader_start := 0\<rparr>,
                   zb_stderr = []\<rparr>)"

section \<open>Memory reconciliation in \<open>arm_generic_fdt_init\<close>\<close>

text \<open>
  The state touched by lines 573-604: the subregions added to the memory container
  \<open>mem_area\<close>, the global \<open>ram_size\<close>, and the \<open>size\<close> entry of the \<open>memory\<close>
  option group.
\<close>

record ddr_state =
  ddr_mem_area :: subregions
  ddr_ram_size :: ram_addr_t
  ddr_opt_memory_size :: "ram_addr_t option"

text \<open>
  Lines 573-604 of \<open>arm_generic_fdt_init\<close>. \<open>memory_max\<close> is the value the preceding
  scan of the top-level memory nodes left, \<open>machine_ram_size\<close> is \<open>machine->ram_size\<close>.
  The two constants of \<open>hw/arm/xlnx-zynqmp.h\<close>, \<open>XLNX_ZYNQMP_MAX_LOW_RAM_SIZE\<close> and
  \<open>XLNX_ZYNQMP_HIGH_RAM_START\<close>, are parameters. The high region is added first, then the
  low one, as in the source.
\<close>

definition arm_generic_fdt_init_ddr ::
  "ram_addr_t \<Rightarrow> ram_addr_t \<Rightarrow> ram_addr_t \<Rightarrow> ram_addr_t \<Rightarrow> ddr_state \<Rightarrow> ddr_state" where
  "arm_generic_fdt_init_ddr MAX_LOW_RAM_SIZE HIGH_RAM_START memory_max machine_ram_size s =
     (if memory_max < machine_ram_size then
        (let (ddr_low_size, s1) =
               (if machine_ram_size > MAX_LOW_RAM_SIZE then
                  (MAX_LOW_RAM_SIZE - memory_max,
                   s\<lparr>ddr_mem_area := memory_region_add_subregion (ddr_mem_area s) HIGH_RAM_START
                        (memory_region_init_ram ''ddr-ram-high''
                           (machine_ram_size - MAX_LOW_RAM_SIZE))\<rparr>)
                else (machine_ram_size - memory_max, s))
         in if ddr_low_size \<noteq> 0 then
              s1\<lparr>ddr_mem_area := memory_region_add_subregion (ddr_mem_area s1) memory_max
                    (memory_region_init_ram ''ddr-ram-low'' ddr_low_size)\<rparr>
            else s1)
      else s\<lparr>ddr_ram_size := memory_max, ddr_opt_memory_size := Some memory_max\<rparr>)"

section \<open>The Boot Preparer in \<open>arm_generic_fdt_init\<close>\<close>

record MachineState =
  ms_ram_size :: ram_addr_t
  ms_kernel_filename :: "string option"
  ms_kernel_cmdline :: "string option"
  ms_initrd_filename :: "string option"

text \<open>
  Lines 608-620 and 633-635 of \<open>arm_generic_fdt_init\<close>: the boot descriptor is filled in
  and, when a kernel file name was given, handed to \<open>arm_load_kernel\<close>.
  \<open>ram_kernel_base\<close> and \<open>ram_kernel_size\<close> are the address and size read from the
  memory node's region, \<open>fdt_generic_num_cpus\<close> the number of CPUs the Builder created.
\<close>

definition arm_generic_fdt_init_boot ::
  "endianness \<Rightarrow> endianness \<Rightarrow> MachineState \<Rightarrow> ram_addr_t \<Rightarrow> ram_addr_t \<Rightarrow> nat \<Rightarrow>
   boot_state \<Rightarrow> arm_boot_info \<times> boot_state" where
  "arm_generic_fdt_init_boot host target machine ram_kernel_base ram_kernel_size
       fdt_generic_num_cpus s =
     (let binfo = zero_binfo\<lparr>bi_ram_size := ram_kernel_size,
            bi_kernel_filename := ms_kernel_filename machine,
            bi_kernel_cmdline := ms_kernel_cmdline machine,
            bi_initrd_filename := ms_initrd_filename machine,
            bi_nb_cpus := fdt_generic_num_cpus,
            bi_write_secondary_boot := Some (arm_write_secondary_boot host target),
            bi_smp_loader_start := SMP_BOOT_ADDR,
            bi_smp_bootreg_addr := SMP_BOOTREG_ADDR,
            bi_board_id := 0xd32,
            bi_loader_start := ram_kernel_base,
            bi_secure_boot := True\<rparr>
      in (binfo,
          if ms_kernel_filename machine \<noteq> None then arm_load_kernel binfo s else s))"

section \<open>The device tree\<close>

text \<open>
  Modelled from the spec: the hardware description tree and the libfdt and
  \<open>qemu_devtree\<close>/\<open>qemu_fdt\<close> helpers that read and edit it (none of them is part of
  this file). Following the data model of the spec, a node has a hierarchical path, which
  is its unique identifier, and a mapping from property names to values. The flattened
  tree is the list of its nodes in blob order (a node before its subnodes), each with its
  full path and its properties; a property value is its raw bytes (\<open>char\<close> is a byte),
  cells are 32-bit big-endian, strings end with a NUL byte. A node offset is a position
  in the list, the root has offset 0, and a negative libfdt result is \<open>None\<close>.
\<close>

type_synonym path = string
type_synonym property = "string \<times> string"
type_synonym fdt_node = "path \<times> property list"
type_synonym fdt = "fdt_node list"

definition NUL :: char where
  "NUL = CHR 0x00"

definition cpu_to_be32 :: "32 word \<Rightarrow> string" where
  "cpu_to_be32 x = map (\<lambda>k. char_of (unat (drop_bit k x))) [24, 16, 8, 0]"

definition be32_to_cpu :: "string \<Rightarrow> 32 word" where
  "be32_to_cpu bs = foldl (\<lambda>a c. or (push_bit 8 a) (of_nat (of_char c))) 0 (take 4 bs)"

fun fdt_path_offset :: "fdt \<Rightarrow> path \<Rightarrow> nat option" where
  "fdt_path_offset [] p = None"
| "fdt_path_offset (n # ns) p =
     (if fst n = p then Some 0 else map_option Suc (fdt_path_offset ns p))"

definition fdt_getprop :: "fdt \<Rightarrow> nat option \<Rightarrow> string \<Rightarrow> string option" where
  "fdt_getprop fdt off name =
     (case off of None \<Rightarrow> None
      | Some i \<Rightarrow> if i < length fdt then map_of (snd (fdt ! i)) name else None)"

text \<open>
  Modelled from the spec: \<open>set_property(path, key, value)\<close>, libfdt's \<open>fdt_setprop\<close>. A
  property that exists keeps its place and gets the new value; a new one is put first. A
  negative offset is an error and leaves the tree unchanged.
\<close>

fun replace_prop :: "property list \<Rightarrow> string \<Rightarrow> string \<Rightarrow> property list" where
  "replace_prop [] name val = []"
| "replace_prop (p # ps) name val =
     (if fst p = name then (name, val) # ps else p # replace_prop ps name val)"

definition node_setprop :: "property list \<Rightarrow> string \<Rightarrow> string \<Rightarrow> property list" where
  "node_setprop ps name val =
     (if map_of ps name = None then (name, val) # ps else replace_prop ps name val)"

definition fdt_setprop :: "fdt \<Rightarrow> nat option \<Rightarrow> string \<Rightarrow> string \<Rightarrow> fdt" where
  "fdt_setprop fdt off name val =
     (case off of None \<Rightarrow> fdt
      | Some i \<Rightarrow>
          if i < length fdt
          then fdt[i := (fst (fdt ! i), node_setprop (snd (fdt ! i)) name val)]
          else fdt)"

text \<open>
  Modelled from the spec: reading the property mapping of a node.
  \<open>qemu_fdt_getprop\<close> with \<open>inherit = false\<close> and no error pointer: the value, or
  \<open>NULL\<close> when the node or the property is missing. \<open>qemu_fdt_getprop_cell\<close> under the
  same flags: the cell at the given index, or 0 when the property is missing or too short.
\<close>

definition qemu_fdt_getprop :: "fdt \<Rightarrow> path \<Rightarrow> string \<Rightarrow> string option" where
  "qemu_fdt_getprop fdt node_path name = fdt_getprop fdt (fdt_path_offset fdt node_path) name"

definition qemu_fdt_getprop_cell :: "fdt \<Rightarrow> path \<Rightarrow> string \<Rightarrow> nat \<Rightarrow> 32 word" where
  "qemu_fdt_getprop_cell fdt node_path name offset =
     (case qemu_fdt_getprop fdt node_path name of
        None \<Rightarrow> 0
      | Some v \<Rightarrow> if length v < (offset + 1) * 4 then 0
                  else be32_to_cpu (drop (4 * offset) v))"

text \<open>
  Modelled from the spec: \<open>set_property(path, key, value)\<close> by path. The
  \<open>qemu_fdt_setprop\<close> family looks the node up with \<open>findnode_nofail\<close>, which ends
  the process when the path names no node.
\<close>

definition qemu_fdt_setprop :: "fdt \<Rightarrow> path \<Rightarrow> string \<Rightarrow> string \<Rightarrow> error + fdt" where
  "qemu_fdt_setprop fdt node_path name val =
     (case fdt_path_offset fdt node_path of
        None \<Rightarrow> Inl (Exit ''FDT: Failed to find node'')
      | Some i \<Rightarrow> Inr (fdt_setprop fdt (Some i) name val))"

definition qemu_fdt_setprop_string :: "fdt \<Rightarrow> path \<Rightarrow> string \<Rightarrow> string \<Rightarrow> error + fdt" where
  "qemu_fdt_setprop_string fdt node_path name str = qemu_fdt_setprop fdt node_path name (str @ [NUL])"

definition qemu_fdt_setprop_cells :: "fdt \<Rightarrow> path \<Rightarrow> string \<Rightarrow> 32 word list \<Rightarrow> error + fdt" where
  "qemu_fdt_setprop_cells fdt node_path name cells =
     qemu_fdt_setprop fdt node_path name (concat (map cpu_to_be32 cells))"

text \<open>The C string a \<open>char *\<close> to a value denotes: the bytes before the first NUL.\<close>

definition c_string :: "string \<Rightarrow> string" where
  "c_string v = takeWhile (\<lambda>c. c \<noteq> NUL) v"

text \<open>The NUL-terminated strings of a string-list value; an unterminated tail is dropped.\<close>

fun stringlist :: "string \<Rightarrow> string \<Rightarrow> string list" where
  "stringlist acc [] = []"
| "stringlist acc (c # cs) =
     (if c = NUL then acc # stringlist [] cs else stringlist (acc @ [c]) cs)"

definition fdt_node_check_compatible :: "fdt_node \<Rightarrow> string \<Rightarrow> bool" where
  "fdt_node_check_compatible n compatible =
     (case map_of (snd n) ''compatible'' of
        None \<Rightarrow> False
      | Some v \<Rightarrow> compatible \<in> set (stringlist [] v))"

text \<open>
  Modelled from the spec: \<open>find_first_matching(compatible) -> path | not_found\<close> and the
  lookup by node name. The name of a node is the last component of its path; the lookup by name ignores the
  unit address (the part from \<open>@\<close> on). Both lookups skip the root (they accept offsets
  \<open>> 0\<close> only, as the loops of lines 478-486 and 509-523 do) and return the path of the
  first match in blob order; \<open>None\<close> stands for their non-zero return value.
\<close>

definition node_name :: "path \<Rightarrow> string" where
  "node_name p = rev (takeWhile (\<lambda>c. c \<noteq> CHR ''/'') (rev p))"

definition qemu_devtree_node_by_compatible :: "fdt \<Rightarrow> string \<Rightarrow> path option" where
  "qemu_devtree_node_by_compatible fdt compats =
     map_option fst (find (\<lambda>n. fdt_node_check_compatible n compats) (tl fdt))"

definition qemu_devtree_get_node_by_name :: "fdt \<Rightarrow> string \<Rightarrow> path option" where
  "qemu_devtree_get_node_by_name fdt cmpname =
     map_option fst
       (find (\<lambda>n. takeWhile (\<lambda>c. c \<noteq> CHR ''@'') (node_name (fst n)) = cmpname) (tl fdt))"

text \<open>
  Modelled from the spec: \<open>qemu_devtree_get_children\<close> at depth 1, the paths of the
  children of a node in blob order. \<open>qemu_devtree_get_num_children\<close> is the length of
  this list.
\<close>

definition is_child_of :: "path \<Rightarrow> path \<Rightarrow> bool" where
  "is_child_of parent p =
     (let pre = (if parent = ''/'' then ''/'' else parent @ ''/'');
          rest = drop (length pre) p
      in take (length pre) p = pre \<and> rest \<noteq> [] \<and> CHR ''/'' \<notin> set rest)"

definition qemu_devtree_get_children :: "fdt \<Rightarrow> path \<Rightarrow> path list" where
  "qemu_devtree_get_children fdt node_path =
     map fst (filter (\<lambda>n. is_child_of node_path (fst n)) fdt)"

text \<open>
  Modelled from the spec: \<open>qemu_devtree_getparent\<close>, the parent of a node in the
  hierarchy of paths: the path without its last component. The call fails (\<open>None\<close>)
  for the root and for a path that names no node.
\<close>

definition dirname :: "path \<Rightarrow> path" where
  "dirname p =
     (let d = rev (drop 1 (dropWhile (\<lambda>c. c \<noteq> CHR ''/'') (rev p)))
      in if d = [] then ''/'' else d)"

definition qemu_devtree_getparent :: "fdt \<Rightarrow> path \<Rightarrow> path option" where
  "qemu_devtree_getparent fdt current =
     (if current = ''/'' \<or> fdt_path_offset fdt current = None then None
      else Some (dirname current))"

text \<open>
  Modelled from the spec: creating the node of a new path (the first half of
  \<open>clone_node\<close>). \<open>qemu_fdt_add_subnode\<close>: a name without \<open>/\<close> is refused (return value \<open>-1\<close>, tree
  unchanged); a missing parent or an existing node of that path ends the process;
  otherwise the new, empty node is placed after the parent's properties, before the
  parent's other subnodes.
\<close>

definition qemu_fdt_add_subnode :: "fdt \<Rightarrow> path \<Rightarrow> error + fdt" where
  "qemu_fdt_add_subnode fdt name =
     (if CHR ''/'' \<notin> set name then Inr fdt
      else
        let dupname = rev (drop 1 (dropWhile (\<lambda>c. c \<noteq> CHR ''/'') (rev name)))
        in case (if dupname = [] then Some 0 else fdt_path_offset fdt dupname) of
             None \<Rightarrow> Inl (Exit ''FDT: Failed to find node'')
           | Some parent \<Rightarrow>
               if fdt_path_offset fdt name \<noteq> None
               then Inl (Exit ''FDT: Failed to create subnode'')
               else Inr (take (Suc parent) fdt @ [(name, [])] @ drop (Suc parent) fdt))"

text \<open>
  Modelled from the spec: \<open>remove_node(path)\<close>.
  \<open>fdt_del_node\<close> removes the node at the offset together with its subnodes, which
  follow it in the blob; a negative offset is an error and leaves the tree unchanged.
\<close>

definition fdt_del_node :: "fdt \<Rightarrow> nat option \<Rightarrow> fdt" where
  "fdt_del_node fdt off =
     (case off of None \<Rightarrow> fdt
      | Some i \<Rightarrow>
          if i < length fdt
          then take i fdt @
               dropWhile (\<lambda>n. take (Suc (length (fst (fdt ! i)))) (fst n) = fst (fdt ! i) @ ''/'')
                 (drop (Suc i) fdt)
          else fdt)"

section \<open>Tree patches of the Zynq-7000 machine\<close>

text \<open>\<open>zynq7000_usb_nuke_phy\<close>, lines 304-313.\<close>

definition zynq7000_usb_nuke_phy :: "fdt \<Rightarrow> error + fdt" where
  "zynq7000_usb_nuke_phy fdt =
     (case qemu_devtree_node_by_compatible fdt ''xlnx,ps7-usb-1.00.a'' of
        None \<Rightarrow> Inr fdt
      | Some usb_node_path \<Rightarrow> qemu_fdt_setprop_string fdt usb_node_path ''dr_mode'' ''host'')"

text \<open>Lines 466-471 of \<open>arm_generic_fdt_init\<close>: the interrupt controller is marked.\<close>

definition zynq7000_disable_gic_init :: "fdt \<Rightarrow> error + fdt" where
  "zynq7000_disable_gic_init fdt =
     (case qemu_devtree_get_node_by_name fdt ''interrupt-controller'' of
        None \<Rightarrow> Inr fdt
      | Some node_path \<Rightarrow> qemu_fdt_setprop_cells fdt node_path ''disable-linux-gic-init'' [1])"

text \<open>
  \<open>zynq7000_qspi_flash_node_clone\<close>, lines 344-406. \<open>DT_PATH_LENGTH\<close> (a constant of
  \<open>hw/fdt_generic.h\<close>) is a parameter: \<open>snprintf\<close> cuts the new path to
  \<open>DT_PATH_LENGTH - 1\<close> characters. \<open>child_num > 0\<close> is the case of a non-empty list
  of children, whose head is \<open>child_flash[0]\<close>. The result is the edited tree and the name
  of the clone, \<open>None\<close> for \<open>NULL\<close>.
\<close>

definition zynq7000_qspi_flash_node_clone :: "nat \<Rightarrow> fdt \<Rightarrow> error + (fdt \<times> path option)" where
  "zynq7000_qspi_flash_node_clone DT_PATH_LENGTH fdt =
     (case qemu_devtree_node_by_compatible fdt ''xlnx,zynq-qspi-1.0'' of
        None \<Rightarrow> Inr (fdt, None)
      | Some qspi_node_path \<Rightarrow>
          let qspi_is_dual = qemu_fdt_getprop_cell fdt qspi_node_path ''is-dual'' 0;
              fdt1 = fdt_setprop fdt (fdt_path_offset fdt qspi_node_path) ''#bus-cells''
                       (cpu_to_be32 1);
              qspi_new_node_path =
                take (DT_PATH_LENGTH - 1) (qspi_node_path @ ''/ps7-qspi-dummy@0'')
          in case qemu_devtree_get_children fdt1 qspi_node_path of
               [] \<Rightarrow> Inr (fdt1, None)
             | child_flash0 # _ \<Rightarrow>
                 let compat_str = qemu_fdt_getprop fdt1 child_flash0 ''compatible'';
                     fdt2 = fdt_setprop fdt1 (fdt_path_offset fdt1 child_flash0) ''reg''
                              (cpu_to_be32 0 @ cpu_to_be32 0)
                 in case compat_str of
                      None \<Rightarrow> Inr (fdt2, None)
                    | Some compat_val \<Rightarrow>
                        if qspi_is_dual = 1 then
                          (case qemu_fdt_add_subnode fdt2 qspi_new_node_path of
                             Inl e \<Rightarrow> Inl e
                           | Inr fdt3 \<Rightarrow>
                               (case qemu_fdt_setprop_string fdt3 qspi_new_node_path
                                       ''compatible'' (c_string compat_val) of
                                  Inl e \<Rightarrow> Inl e
                                | Inr fdt4 \<Rightarrow>
                                    Inr (fdt_setprop fdt4
                                           (fdt_path_offset fdt4 qspi_new_node_path) ''reg''
                                           (cpu_to_be32 0 @ cpu_to_be32 1),
                                         Some qspi_new_node_path)))
                        else Inr (fdt2, None))"

text \<open>
  The life of the tree in \<open>arm_generic_fdt_init\<close>. For the Zynq-7000 machine the clone
  (line 464) and the interrupt-controller patch (lines 466-471) come first. \<open>between\<close>
  stands for lines 473-620: the \<open>reset-cbar\<close> loop, the memory node, the Builder pass
  (\<open>fdt_generic_create_machine\<close>, not part of this file) and the memory layout; it may end
  the process. Then the cloned node is removed (lines 622-627) and, for the Zynq-7000,
  the USB patch runs (lines 629-631). The record keeps the clone's name, the tree as
  \<open>between\<close> left it, the paths \<open>fdt_del_node\<close> was called for, and the final tree.
\<close>

record fdt_run =
  run_clone_name :: "path option"
  run_built :: fdt
  run_del_nodes :: "path list"
  run_fdt :: fdt

definition arm_generic_fdt_init_tree ::
  "nat \<Rightarrow> bool \<Rightarrow> (fdt \<Rightarrow> error + fdt) \<Rightarrow> fdt \<Rightarrow> error + fdt_run" where
  "arm_generic_fdt_init_tree DT_PATH_LENGTH zynq_7000 between fdt =
     (case (if zynq_7000 then
              (case zynq7000_qspi_flash_node_clone DT_PATH_LENGTH fdt of
                 Inl e \<Rightarrow> Inl e
               | Inr (fdt1, name) \<Rightarrow>
                   (case zynq7000_disable_gic_init fdt1 of
                      Inl e \<Rightarrow> Inl e
                    | Inr fdt2 \<Rightarrow> Inr (fdt2, name)))
            else Inr (fdt, None)) of
        Inl e \<Rightarrow> Inl e
      | Inr (fdt2, qspi_clone_spi_flash_node_name) \<Rightarrow>
          (case between fdt2 of
             Inl e \<Rightarrow> Inl e
           | Inr fdt3 \<Rightarrow>
               let (fdt4, dels) =
                     (case qspi_clone_spi_flash_node_name of
                        None \<Rightarrow> (fdt3, [])
                      | Some name \<Rightarrow> (fdt_del_node fdt3 (fdt_path_offset fdt3 name), [name]))
               in (case (if zynq_7000 then zynq7000_usb_nuke_phy fdt4 else Inr fdt4) of
                     Inl e \<Rightarrow> Inl e
                   | Inr fdt5 \<Rightarrow>
                       Inr \<lparr>run_clone_name = qspi_clone_spi_flash_node_name,
                            run_built = fdt3, run_del_nodes = dels, run_fdt = fdt5\<rparr>)))"

section \<open>The MDIO connect task\<close>

text \<open>
  Modelled from the spec: the instance table of the Builder (\<open>FDTMachineInfo\<close> with
  \<open>fdt_init_set_opaque\<close>, \<open>fdt_init_has_opaque\<close>, \<open>fdt_init_get_opaque\<close>, none of them
  part of this file) is the spec's \<open>register_instance\<close>/\<open>lookup_instance\<close>: a map from
  node paths to instance handles. Objects are handles (0 is \<open>NULL\<close>, which
  \<open>fdt_init_get_opaque\<close> returns for a path without instance); the child and link
  properties set by \<open>object_property_add_child\<close> and \<open>object_property_set_link\<close> are
  maps from (object, property name) to the object they refer to.
\<close>

type_synonym obj = nat

record build_state =
  bs_fdt :: fdt
  bs_opaques :: "path \<rightharpoonup> obj"
  bs_children :: "obj \<times> string \<rightharpoonup> obj"
  bs_links :: "obj \<times> string \<rightharpoonup> obj"

definition fdt_init_set_opaque :: "build_state \<Rightarrow> path \<Rightarrow> obj \<Rightarrow> build_state" where
  "fdt_init_set_opaque fdti node_path opaque =
     fdti\<lparr>bs_opaques := (bs_opaques fdti)(node_path \<mapsto> opaque)\<rparr>"

definition fdt_init_has_opaque :: "build_state \<Rightarrow> path \<Rightarrow> bool" where
  "fdt_init_has_opaque fdti node_path = (bs_opaques fdti node_path \<noteq> None)"

definition fdt_init_get_opaque :: "build_state \<Rightarrow> path \<Rightarrow> obj" where
  "fdt_init_get_opaque fdti node_path =
     (case bs_opaques fdti node_path of None \<Rightarrow> 0 | Some opaque \<Rightarrow> opaque)"

text \<open>A child property that exists is not replaced (the error is dropped: \<open>errp\<close> is \<open>NULL\<close>).\<close>

definition object_property_add_child :: "obj \<Rightarrow> string \<Rightarrow> obj \<Rightarrow> build_state \<Rightarrow> build_state" where
  "object_property_add_child ob name child s =
     (if bs_children s (ob, name) = None
      then s\<lparr>bs_children := (bs_children s)((ob, name) \<mapsto> child)\<rparr> else s)"

definition object_property_set_link :: "obj \<Rightarrow> obj \<Rightarrow> string \<Rightarrow> build_state \<Rightarrow> build_state" where
  "object_property_set_link ob val name s = s\<lparr>bs_links := (bs_links s)((ob, name) \<mapsto> val)\<rparr>"

text \<open>
  \<open>zynq7000_mdio_phy_connect\<close>, lines 315-342, as a cooperative task. One activation runs
  from the entry, or from the point inside the \<open>while\<close> loop where \<open>fdt_init_yield\<close>
  gave control away, to the next yield, to the \<open>return\<close> or to \<open>abort()\<close>. After a
  yield the loop condition is evaluated again in the state the task is resumed in.
  \<open>mdio_wait_parent\<close> is the code from the loop condition of line 328 to the end.
\<close>

datatype mdio_pc = MdioEntry | MdioWaitParent path

datatype co_status = CoYield mdio_pc | CoReturn int | CoAbort

definition mdio_wait_parent :: "path \<Rightarrow> obj \<Rightarrow> build_state \<Rightarrow> co_status \<times> build_state" where
  "mdio_wait_parent parent_node_path Opaque fdti =
     (if \<not> fdt_init_has_opaque fdti parent_node_path
      then (CoYield (MdioWaitParent parent_node_path), fdti)
      else
        let parent = fdt_init_get_opaque fdti parent_node_path
        in (CoReturn 0,
            object_property_set_link parent Opaque ''mdio''
              (object_property_add_child parent ''mdio_child'' Opaque fdti)))"

fun zynq7000_mdio_phy_connect ::
  "path \<Rightarrow> obj \<Rightarrow> mdio_pc \<Rightarrow> build_state \<Rightarrow> co_status \<times> build_state" where
  "zynq7000_mdio_phy_connect node_path Opaque MdioEntry fdti =
     (let fdti1 = fdt_init_set_opaque fdti node_path Opaque
      in case qemu_devtree_getparent (bs_fdt fdti1) node_path of
           None \<Rightarrow> (CoAbort, fdti1)
         | Some parent_node_path \<Rightarrow> mdio_wait_parent parent_node_path Opaque fdti1)"
| "zynq7000_mdio_phy_connect node_path Opaque (MdioWaitParent parent_node_path) fdti =
     mdio_wait_parent parent_node_path Opaque fdti"

text \<open>
  Modelled from the spec: the cooperative scheduler of the Builder (not part of this
  file), seen from this task. The task is activated; whenever it yields, the other tasks
  run (\<open>others\<close>) and the task is activated again. The result is \<open>None\<close> when the task has
  not finished after \<open>n\<close> activations.
\<close>

fun mdio_task_run ::
  "nat \<Rightarrow> (build_state \<Rightarrow> build_state) \<Rightarrow> path \<Rightarrow> obj \<Rightarrow> mdio_pc \<Rightarrow> build_state \<Rightarrow>
   (co_status \<times> build_state) option" where
  "mdio_task_run 0 others node_path Opaque pc fdti = None"
| "mdio_task_run (Suc n) others node_path Opaque pc fdti =
     (case zynq7000_mdio_phy_connect node_path Opaque pc fdti of
        (CoYield pc', fdti') \<Rightarrow> mdio_task_run n others node_path Opaque pc' (others fdti')
      | (CoReturn r, fdti') \<Rightarrow> Some (CoReturn r, fdti')
      | (CoAbort, fdti') \<Rightarrow> Some (CoAbort, fdti'))"

section \<open>The described memory in \<open>arm_generic_fdt_init\<close>\<close>











section \<open>An example tree\<close>

text \<open>
  A small Zynq-7000 description: a bus with a QSPI controller in dual mode and one flash
  below it. It has no USB controller and no interrupt controller.
\<close>

definition example_fdt :: fdt where
  "example_fdt =
     [(''/'', []),
      (''/amba'', [(''compatible'', ''simple-bus'' @ [NUL])]),
      (''/amba/spi@e000d000'',
         [(''compatible'', ''xlnx,zynq-qspi-1.0'' @ [NUL]), (''is-dual'', cpu_to_be32 1)]),
      (''/amba/spi@e000d000/flash@0'',
         [(''compatible'', ''n25q128'' @ [NUL]), (''reg'', cpu_to_be32 0)])]"

text \<open>
  A Builder state for a tree with an Ethernet controller \<open>/gem\<close> and its MDIO bus
  \<open>/gem/mdio\<close>, before any instance is registered.
\<close>

definition example_build_state :: build_state where
  "example_build_state =
     \<lparr>bs_fdt = [(''/'', []), (''/gem'', []), (''/gem/mdio'', [])],
      bs_opaques = Map.empty, bs_children = Map.empty, bs_links = Map.empty\<rparr>"

section \<open>Properties of the memory reconciliation\<close>















text \<open>
  C2. The claim: when \<open>P < R\<close> and \<open>C \<le> P\<close>, the whole shortfall \<open>R - P\<close> becomes one
  high region and no low region is created. The source computes
  \<open>ddr_low_size = XLNX_ZYNQMP_MAX_LOW_RAM_SIZE - memory_max\<close> in unsigned arithmetic; for
  \<open>C < P\<close> this wraps around to a non-zero value. With \<open>C\<close> = 2 GiB, \<open>P\<close> = 3 GiB and
  \<open>R\<close> = 4 GiB the code adds a high region of 2 GiB (not the shortfall of 1 GiB) and a low
  region of \<open>2^64 - 1 GiB\<close> bytes at offset 3 GiB.
\<close>

theorem ddr_above_ceiling_wraps:
  "ddr_mem_area (arm_generic_fdt_init_ddr 0x80000000 0x800000000 0xC0000000 0x100000000
       \<lparr>ddr_mem_area = [], ddr_ram_size = 0x100000000, ddr_opt_memory_size = None\<rparr>) =
     [(0x800000000, \<lparr>mr_name = ''ddr-ram-high'', mr_size = 0x80000000\<rparr>),
      (0xC0000000, \<lparr>mr_name = ''ddr-ram-low'', mr_size = 0xFFFFFFFFC0000000\<rparr>)]"
  by (simp add: arm_generic_fdt_init_ddr_def memory_region_add_subregion_def
        memory_region_init_ram_def)

text \<open>
  The same for every \<open>P\<close> above the ceiling: both regions are added, the low one with
  the wrapped, non-zero size \<open>C - P\<close>, and the high one is not the shortfall.
\<close>

lemma ddr_above_ceiling:
  assumes "C < P" and "P < R"
  shows "ddr_mem_area (arm_generic_fdt_init_ddr C H P R s) =
           ddr_mem_area s @
           [(H, \<lparr>mr_name = ''ddr-ram-high'', mr_size = R - C\<rparr>),
            (P, \<lparr>mr_name = ''ddr-ram-low'', mr_size = C - P\<rparr>)]
         \<and> C - P \<noteq> 0 \<and> R - C \<noteq> R - P"
proof -
  have cr: "C < R" using assms by simp
  have nz: "C - P \<noteq> 0" using assms(1) by simp
  have ne: "R - C \<noteq> R - P" using assms(1) by simp
  show ?thesis
    using assms cr nz ne
    by (simp add: arm_generic_fdt_init_ddr_def memory_region_add_subregion_def
          memory_region_init_ram_def)
qed

text \<open>At the ceiling itself (\<open>P = C\<close>) the code does what the claim says.\<close>

lemma ddr_at_ceiling:
  "C < R \<Longrightarrow> ddr_mem_area (arm_generic_fdt_init_ddr C H C R s) =
     ddr_mem_area s @ [(H, \<lparr>mr_name = ''ddr-ram-high'', mr_size = R - C\<rparr>)]"
  by (simp add: arm_generic_fdt_init_ddr_def memory_region_add_subregion_def
        memory_region_init_ram_def)




section \<open>Properties of the legacy board\<close>

text \<open>
  C9. When the CPU model is known, \<open>zynq_init\<close> completes; the external RAM region at
  address 0 and the \<open>ram_size\<close> of the boot descriptor both have the requested size if that
  is at most \<open>0x80000000\<close> and exactly \<open>0x80000000\<close> otherwise, and nothing is written to
  standard error.
\<close>

theorem zynq_init_clamps_ram:
  assumes "cpu_arm_init (case args_cpu_model args of None \<Rightarrow> ''cortex-a9'' | Some m \<Rightarrow> m)"
  shows "\<exists>b. zynq_init cpu_arm_init args = Inr b \<and>
           zb_system_memory b =
             [(0, \<lparr>mr_name = ''zynq.ext_ram'', mr_size =
                    (if args_ram_size args > 0x80000000 then 0x80000000 else args_ram_size args)\<rparr>),
              (0xFFFC0000, \<lparr>mr_name = ''zynq.ocm_ram'', mr_size = 0x40000\<rparr>)] \<and>
           bi_ram_size (zb_binfo b) =
             (if args_ram_size args > 0x80000000 then 0x80000000 else args_ram_size args) \<and>
           zb_stderr b = []"
  using assms
  by (simp add: zynq_init_def Let_def memory_region_add_subregion_def memory_region_init_ram_def)

theorem zynq_init_clamps_ram_witness:
  "(\<lambda>m. m = ''cortex-a9'') (case None of None \<Rightarrow> ''cortex-a9'' | Some m \<Rightarrow> m) \<and>
   (\<exists>b. zynq_init (\<lambda>m. m = ''cortex-a9'')
          \<lparr>args_ram_size = 0x100000000, args_cpu_model = None, args_kernel_filename = None,
           args_kernel_cmdline = None, args_initrd_filename = None\<rparr> = Inr b \<and>
        zb_system_memory b =
          [(0, \<lparr>mr_name = ''zynq.ext_ram'', mr_size = 0x80000000\<rparr>),
           (0xFFFC0000, \<lparr>mr_name = ''zynq.ocm_ram'', mr_size = 0x40000\<rparr>)] \<and>
        bi_ram_size (zb_binfo b) = 0x80000000 \<and> zb_stderr b = [])"
proof -
  have h: "(\<lambda>m. m = ''cortex-a9'')
     (case args_cpu_model \<lparr>args_ram_size = 0x100000000, args_cpu_model = None,
        args_kernel_filename = None, args_kernel_cmdline = None,
        args_initrd_filename = None\<rparr> of None \<Rightarrow> ''cortex-a9'' | Some m \<Rightarrow> m)"
    by simp
  show ?thesis
    using zynq_init_clamps_ram [of "\<lambda>m. m = ''cortex-a9''", OF h]
    by simp
qed

section \<open>Properties of the tree operations\<close>

lemma fdt_path_offset_Some:
  "fdt_path_offset t p = Some i \<Longrightarrow> i < length t \<and> fst (t ! i) = p"
  by (induction t arbitrary: i) (auto split: if_splits)

lemma fdt_path_offset_None: "(fdt_path_offset t p = None) = (p \<notin> fst ` set t)"
  by (induction t) auto

lemma fdt_path_offset_paths:
  "map fst t = map fst t' \<Longrightarrow> fdt_path_offset t p = fdt_path_offset t' p"
proof (induction t arbitrary: t')
  case Nil
  then show ?case by simp
next
  case (Cons a t)
  then obtain b t'' where t': "t' = b # t''" by (cases t') auto
  with Cons.prems have "fst a = fst b" "map fst t = map fst t''" by simp_all
  with Cons.IH [of t''] show ?case by (simp add: t')
qed

lemma paths_fdt_setprop: "map fst (fdt_setprop t off k v) = map fst t"
  by (auto simp: fdt_setprop_def map_update list_update_same_conv split: option.splits)

lemma paths_qemu_fdt_setprop:
  "qemu_fdt_setprop t p k v = Inr t' \<Longrightarrow> map fst t' = map fst t \<and> p \<in> fst ` set t"
  using fdt_path_offset_None [of t p]
  by (auto simp: qemu_fdt_setprop_def paths_fdt_setprop split: option.splits)

lemma qemu_fdt_add_subnode_Inr:
  assumes "qemu_fdt_add_subnode t p = Inr t'"
  shows "(CHR ''/'' \<notin> set p \<and> t' = t) \<or>
         (CHR ''/'' \<in> set p \<and> p \<notin> fst ` set t \<and> (\<exists>k. t' = take k t @ [(p, [])] @ drop k t))"
proof (cases "CHR ''/'' \<in> set p")
  case False
  then show ?thesis using assms by (simp add: qemu_fdt_add_subnode_def)
next
  case True
  define dupname where "dupname = rev (drop 1 (dropWhile (\<lambda>c. c \<noteq> CHR ''/'') (rev p)))"
  define par where "par = (if dupname = [] then Some 0 else fdt_path_offset t dupname)"
  have e: "(case par of None \<Rightarrow> Inl (Exit ''FDT: Failed to find node'')
            | Some parent \<Rightarrow>
               if fdt_path_offset t p \<noteq> None then Inl (Exit ''FDT: Failed to create subnode'')
               else Inr (take (Suc parent) t @ [(p, [])] @ drop (Suc parent) t)) = Inr t'"
    using assms True unfolding qemu_fdt_add_subnode_def Let_def par_def dupname_def by simp
  then obtain parent where pp: "par = Some parent" by (cases par) auto
  from e pp have n: "fdt_path_offset t p = None"
    and t': "t' = take (Suc parent) t @ [(p, [])] @ drop (Suc parent) t"
    by (auto split: if_splits)
  from n have "p \<notin> fst ` set t" by (simp add: fdt_path_offset_None)
  then show ?thesis using True t' by blast
qed

lemma paths_insert_at:
  "map fst (take k t @ [(p, [])] @ drop k t) = take k (map fst t) @ [p] @ drop k (map fst t)"
  by (simp add: take_map drop_map)

lemma set_insert_at: "set (take k xs @ [x] @ drop k xs) = insert x (set xs)"
proof -
  have "set (take k xs) \<union> set (drop k xs) = set xs"
    by (metis append_take_drop_id set_append)
  then show ?thesis by auto
qed

lemma distinct_insert_at:
  "distinct xs \<Longrightarrow> x \<notin> set xs \<Longrightarrow> distinct (take k xs @ [x] @ drop k xs)"
proof -
  assume d: "distinct xs" and x: "x \<notin> set xs"
  have "distinct (take k xs) \<and> distinct (drop k xs) \<and> set (take k xs) \<inter> set (drop k xs) = {}"
    using d by (metis append_take_drop_id distinct_append)
  moreover have "x \<notin> set (take k xs)" "x \<notin> set (drop k xs)"
    using x by (auto dest: in_set_takeD in_set_dropD)
  ultimately show ?thesis by auto
qed

lemma paths_qemu_fdt_add_subnode:
  assumes "qemu_fdt_add_subnode t p = Inr t'"
  shows "fst ` set t \<subseteq> fst ` set t'"
    and "distinct (map fst t) \<Longrightarrow> distinct (map fst t')"
proof -
  from qemu_fdt_add_subnode_Inr [OF assms]
  consider "t' = t" | k where "p \<notin> fst ` set t" "t' = take k t @ [(p, [])] @ drop k t"
    by blast
  then show "fst ` set t \<subseteq> fst ` set t'"
  proof cases
    case 1
    then show ?thesis by simp
  next
    case 2
    have "set (map fst t') = insert p (set (map fst t))"
      unfolding 2(2) paths_insert_at by (rule set_insert_at)
    then show ?thesis by auto
  qed
  assume d: "distinct (map fst t)"
  from qemu_fdt_add_subnode_Inr [OF assms]
  consider "t' = t" | k where "p \<notin> fst ` set t" "t' = take k t @ [(p, [])] @ drop k t"
    by blast
  then show "distinct (map fst t')"
  proof cases
    case 1
    then show ?thesis using d by simp
  next
    case 2
    show ?thesis
      unfolding 2(2) paths_insert_at using d 2(1) by (intro distinct_insert_at) auto
  qed
qed

lemma paths_zynq7000_disable_gic_init:
  "zynq7000_disable_gic_init t = Inr t' \<Longrightarrow> map fst t' = map fst t"
  by (auto simp: zynq7000_disable_gic_init_def qemu_fdt_setprop_cells_def
      dest: paths_qemu_fdt_setprop split: option.splits)

lemma paths_zynq7000_usb_nuke_phy:
  "zynq7000_usb_nuke_phy t = Inr t' \<Longrightarrow> map fst t' = map fst t"
  by (auto simp: zynq7000_usb_nuke_phy_def qemu_fdt_setprop_string_def
      dest: paths_qemu_fdt_setprop split: option.splits)

lemma clone_cases:
  assumes "zynq7000_qspi_flash_node_clone dtl t = Inr (t', name)"
  shows "(name = None \<and> map fst t' = map fst t) \<or>
         (\<exists>p t2 t3. name = Some p \<and> map fst t2 = map fst t \<and>
            qemu_fdt_add_subnode t2 p = Inr t3 \<and> map fst t' = map fst t3 \<and> p \<in> fst ` set t3)"
proof (cases "qemu_devtree_node_by_compatible t ''xlnx,zynq-qspi-1.0''")
  case None
  then show ?thesis using assms by (simp add: zynq7000_qspi_flash_node_clone_def)
next
  case (Some q)
  define fdt1 where "fdt1 = fdt_setprop t (fdt_path_offset t q) ''#bus-cells'' (cpu_to_be32 1)"
  have p1: "map fst fdt1 = map fst t" by (simp add: fdt1_def paths_fdt_setprop)
  show ?thesis
  proof (cases "qemu_devtree_get_children fdt1 q")
    case Nil
    then show ?thesis
      using assms Some p1 by (auto simp add: zynq7000_qspi_flash_node_clone_def Let_def fdt1_def)
  next
    case (Cons c cs)
    define fdt2 where
      "fdt2 = fdt_setprop fdt1 (fdt_path_offset fdt1 c) ''reg'' (cpu_to_be32 0 @ cpu_to_be32 0)"
    have p2: "map fst fdt2 = map fst t" by (simp add: fdt2_def paths_fdt_setprop p1)
    show ?thesis
    proof (cases "qemu_fdt_getprop fdt1 c ''compatible''")
      case None
      then show ?thesis
        using assms Some Cons p2
        by (auto simp add: zynq7000_qspi_flash_node_clone_def Let_def fdt1_def fdt2_def)
    next
      case cv: (Some v)
      show ?thesis
      proof (cases "qemu_fdt_getprop_cell t q ''is-dual'' 0 = 1")
        case False
        then show ?thesis
          using assms Some Cons cv p2
          by (auto simp add: zynq7000_qspi_flash_node_clone_def Let_def fdt1_def fdt2_def)
      next
        case True
        define p where "p = take (dtl - 1) (q @ ''/ps7-qspi-dummy@0'')"
        have r: "(case qemu_fdt_add_subnode fdt2 p of
                    Inl e \<Rightarrow> Inl e
                  | Inr fdt3 \<Rightarrow>
                      (case qemu_fdt_setprop_string fdt3 p ''compatible'' (c_string v) of
                         Inl e \<Rightarrow> Inl e
                       | Inr fdt4 \<Rightarrow>
                           Inr (fdt_setprop fdt4 (fdt_path_offset fdt4 p) ''reg''
                                  (cpu_to_be32 0 @ cpu_to_be32 1), Some p))) = Inr (t', name)"
          using assms Some Cons cv True
          unfolding zynq7000_qspi_flash_node_clone_def Let_def fdt1_def fdt2_def p_def
          by simp
        then obtain fdt3 where a3: "qemu_fdt_add_subnode fdt2 p = Inr fdt3"
          by (cases "qemu_fdt_add_subnode fdt2 p") auto
        with r obtain fdt4 where
          a4: "qemu_fdt_setprop_string fdt3 p ''compatible'' (c_string v) = Inr fdt4"
          by (cases "qemu_fdt_setprop_string fdt3 p ''compatible'' (c_string v)") auto
        from r a3 a4 have res: "t' = fdt_setprop fdt4 (fdt_path_offset fdt4 p) ''reg''
                                  (cpu_to_be32 0 @ cpu_to_be32 1)" "name = Some p"
          by auto
        from a4 have p4: "map fst fdt4 = map fst fdt3" "p \<in> fst ` set fdt3"
          by (auto simp: qemu_fdt_setprop_string_def dest: paths_qemu_fdt_setprop)
        have "map fst t' = map fst fdt3" by (simp add: res(1) paths_fdt_setprop p4(1))
        then show ?thesis using res(2) p2 a3 p4(2) by blast
      qed
    qed
  qed
qed

lemma paths_image: "map fst a = map fst b \<Longrightarrow> fst ` set a = fst ` set b"
  by (metis set_map)

lemma clone_paths:
  assumes "zynq7000_qspi_flash_node_clone dtl t = Inr (t', name)"
  shows "fst ` set t \<subseteq> fst ` set t'"
    and "distinct (map fst t) \<Longrightarrow> distinct (map fst t')"
    and "name = Some p \<Longrightarrow> p \<in> fst ` set t'"
proof -
  from clone_cases [OF assms]
  consider "name = None" "map fst t' = map fst t"
    | q t2 t3 where "name = Some q" "map fst t2 = map fst t"
        "qemu_fdt_add_subnode t2 q = Inr t3" "map fst t' = map fst t3" "q \<in> fst ` set t3"
    by blast
  then have "fst ` set t \<subseteq> fst ` set t' \<and> (distinct (map fst t) \<longrightarrow> distinct (map fst t')) \<and>
       (name = Some p \<longrightarrow> p \<in> fst ` set t')"
  proof cases
    case 1
    then show ?thesis using paths_image [OF 1(2)] by simp
  next
    case 2
    have s2: "fst ` set t2 = fst ` set t" using 2(2) by (rule paths_image)
    have s3: "fst ` set t' = fst ` set t3" using 2(4) by (rule paths_image)
    have "fst ` set t \<subseteq> fst ` set t'"
      using paths_qemu_fdt_add_subnode(1) [OF 2(3)] s2 s3 by simp
    moreover have "distinct (map fst t) \<longrightarrow> distinct (map fst t')"
      using paths_qemu_fdt_add_subnode(2) [OF 2(3)] 2(2) 2(4) by simp
    moreover have "name = Some p \<longrightarrow> p \<in> fst ` set t'"
      using 2(1) 2(5) s3 by auto
    ultimately show ?thesis by blast
  qed
  then show "fst ` set t \<subseteq> fst ` set t'"
    and "distinct (map fst t) \<Longrightarrow> distinct (map fst t')"
    and "name = Some p \<Longrightarrow> p \<in> fst ` set t'" by blast+
qed

lemma clone_fresh:
  assumes "zynq7000_qspi_flash_node_clone dtl t = Inr (t', Some p)" and "CHR ''/'' \<in> set p"
  shows "p \<notin> fst ` set t"
proof -
  from clone_cases [OF assms(1)] obtain t2 t3 where
    p2: "map fst t2 = map fst t" and a: "qemu_fdt_add_subnode t2 p = Inr t3"
    by auto
  from qemu_fdt_add_subnode_Inr [OF a] assms(2) have "p \<notin> fst ` set t2" by blast
  then show ?thesis using paths_image [OF p2] by simp
qed

lemma in_set_dropWhileI: "x \<in> set xs \<Longrightarrow> \<not> P x \<Longrightarrow> x \<in> set (dropWhile P xs)"
  by (induction xs) auto

lemma fdt_del_node_subset: "set (fdt_del_node t off) \<subseteq> set t"
proof (cases off)
  case None
  then show ?thesis by (simp add: fdt_del_node_def)
next
  case (Some i)
  have "set (take i t) \<subseteq> set t" by (rule set_take_subset)
  moreover have "set (dropWhile P (drop (Suc i) t)) \<subseteq> set t" for P
    using set_dropWhileD [of _ P "drop (Suc i) t"] set_drop_subset [of "Suc i" t] by blast
  ultimately show ?thesis using Some by (auto simp: fdt_del_node_def)
qed

lemma fdt_del_node_absent:
  assumes "distinct (map fst t)"
  shows "p \<notin> fst ` set (fdt_del_node t (fdt_path_offset t p))"
proof (cases "fdt_path_offset t p")
  case None
  then have "p \<notin> fst ` set t" by (simp add: fdt_path_offset_None)
  then show ?thesis using None by (simp add: fdt_del_node_def)
next
  case (Some i)
  then have i: "i < length t" and pi: "fst (t ! i) = p"
    using fdt_path_offset_Some by blast+
  have t: "t = take i t @ t ! i # drop (Suc i) t" using i by (rule id_take_nth_drop)
  have "distinct (map fst (take i t @ t ! i # drop (Suc i) t))" using assms t by simp
  then have a: "p \<notin> fst ` set (take i t)" and b: "p \<notin> fst ` set (drop (Suc i) t)"
    using pi by auto
  have "set (dropWhile P (drop (Suc i) t)) \<subseteq> set (drop (Suc i) t)" for P
    using set_dropWhileD by fastforce
  then have "p \<notin> fst ` set (dropWhile P (drop (Suc i) t))" for P using b by blast
  then show ?thesis using Some i a by (auto simp: fdt_del_node_def)
qed

lemma fdt_del_node_keeps:
  assumes "n \<in> set t" and "fst n \<noteq> p" and "take (Suc (length p)) (fst n) \<noteq> p @ ''/''"
  shows "n \<in> set (fdt_del_node t (fdt_path_offset t p))"
proof (cases "fdt_path_offset t p")
  case None
  then show ?thesis using assms(1) by (simp add: fdt_del_node_def)
next
  case (Some i)
  then have i: "i < length t" and pi: "fst (t ! i) = p"
    using fdt_path_offset_Some by blast+
  have t: "t = take i t @ t ! i # drop (Suc i) t" using i by (rule id_take_nth_drop)
  have "n \<in> set (take i t @ t ! i # drop (Suc i) t)" using assms(1) t by simp
  then have "n \<in> set (take i t) \<or> n \<in> set (drop (Suc i) t)" using assms(2) pi by auto
  then show ?thesis
  proof
    assume "n \<in> set (take i t)"
    then show ?thesis using Some i by (simp add: fdt_del_node_def)
  next
    assume "n \<in> set (drop (Suc i) t)"
    then have "n \<in> set (dropWhile (\<lambda>n. take (Suc (length (fst (t ! i)))) (fst n) = fst (t ! i) @ ''/'')
                 (drop (Suc i) t))"
      using assms(3) pi by (intro in_set_dropWhileI) auto
    then show ?thesis using Some i by (simp add: fdt_del_node_def)
  qed
qed

lemma dropWhile_none: "\<forall>x \<in> set xs. \<not> P x \<Longrightarrow> dropWhile P xs = xs"
  by (cases xs) auto

lemma fdt_del_node_filter:
  assumes d: "distinct (map fst t)" and p: "p \<in> fst ` set t"
    and leaf: "\<forall>n \<in> set t. take (Suc (length p)) (fst n) \<noteq> p @ ''/''"
  shows "fdt_del_node t (fdt_path_offset t p) = filter (\<lambda>n. fst n \<noteq> p) t"
proof -
  from p obtain i where off: "fdt_path_offset t p = Some i"
    using fdt_path_offset_None [of t p] by (cases "fdt_path_offset t p") auto
  then have i: "i < length t" and pi: "fst (t ! i) = p"
    using fdt_path_offset_Some by blast+
  have t: "t = take i t @ t ! i # drop (Suc i) t" using i by (rule id_take_nth_drop)
  have "distinct (map fst (take i t @ t ! i # drop (Suc i) t))" using d t by simp
  then have "p \<notin> fst ` set (take i t)" and "p \<notin> fst ` set (drop (Suc i) t)"
    using pi by auto
  then have a: "\<forall>n \<in> set (take i t). fst n \<noteq> p" and b: "\<forall>n \<in> set (drop (Suc i) t). fst n \<noteq> p"
    by blast+
  have "\<forall>n \<in> set (drop (Suc i) t). \<not> take (Suc (length p)) (fst n) = p @ ''/''"
    using leaf set_drop_subset [of "Suc i" t] by blast
  then have dw: "dropWhile (\<lambda>n. take (Suc (length p)) (fst n) = p @ ''/'') (drop (Suc i) t) =
             drop (Suc i) t"
    by (rule dropWhile_none)
  have "filter (\<lambda>n. fst n \<noteq> p) (take i t @ t ! i # drop (Suc i) t) = take i t @ drop (Suc i) t"
    using a b pi by simp
  then have "filter (\<lambda>n. fst n \<noteq> p) t = take i t @ drop (Suc i) t" using t by simp
  then show ?thesis using off i pi dw by (simp add: fdt_del_node_def)
qed

lemma node_setprop_other:
  "k' \<noteq> k \<Longrightarrow> map_of (node_setprop ps k v) k' = map_of ps k'"
proof -
  assume ne: "k' \<noteq> k"
  have "map_of (replace_prop ps k v) k' = map_of ps k'"
    using ne by (induction ps) auto
  then show ?thesis using ne by (simp add: node_setprop_def)
qed

lemma fdt_getprop_setprop_other:
  "k' \<noteq> k \<Longrightarrow> fdt_getprop (fdt_setprop t off k v) off' k' = fdt_getprop t off' k'"
  by (auto simp: fdt_getprop_def fdt_setprop_def nth_list_update node_setprop_other
      split: option.splits)

lemma qemu_fdt_getprop_setprop_other:
  "k' \<noteq> k \<Longrightarrow> qemu_fdt_getprop (fdt_setprop t off k v) p k' = qemu_fdt_getprop t p k'"
  using fdt_path_offset_paths [OF paths_fdt_setprop, of t off k v p]
  by (simp add: qemu_fdt_getprop_def fdt_getprop_setprop_other)

lemma get_children_paths:
  "map fst t = map fst t' \<Longrightarrow> qemu_devtree_get_children t q = qemu_devtree_get_children t' q"
proof -
  assume a: "map fst t = map fst t'"
  have "qemu_devtree_get_children u q = filter (is_child_of q) (map fst u)" for u :: fdt
    by (simp add: qemu_devtree_get_children_def filter_map comp_def)
  then show ?thesis using a by simp
qed

lemma clone_name_iff:
  assumes "zynq7000_qspi_flash_node_clone dtl t = Inr (t', name)"
  shows "(name \<noteq> None) =
         (\<exists>q c cs v. qemu_devtree_node_by_compatible t ''xlnx,zynq-qspi-1.0'' = Some q \<and>
            qemu_devtree_get_children t q = c # cs \<and>
            qemu_fdt_getprop t c ''compatible'' = Some v \<and>
            qemu_fdt_getprop_cell t q ''is-dual'' 0 = 1)"
proof (cases "qemu_devtree_node_by_compatible t ''xlnx,zynq-qspi-1.0''")
  case None
  then show ?thesis using assms by (simp add: zynq7000_qspi_flash_node_clone_def)
next
  case (Some q)
  define fdt1 where "fdt1 = fdt_setprop t (fdt_path_offset t q) ''#bus-cells'' (cpu_to_be32 1)"
  have ch: "qemu_devtree_get_children fdt1 q = qemu_devtree_get_children t q"
    by (simp add: fdt1_def get_children_paths [OF paths_fdt_setprop])
  have gp: "qemu_fdt_getprop fdt1 c ''compatible'' = qemu_fdt_getprop t c ''compatible''" for c
    by (simp add: fdt1_def qemu_fdt_getprop_setprop_other)
  show ?thesis
  proof (cases "qemu_devtree_get_children t q")
    case Nil
    then show ?thesis
      using assms Some ch
      by (auto simp add: zynq7000_qspi_flash_node_clone_def Let_def fdt1_def)
  next
    case (Cons c cs)
    show ?thesis
    proof (cases "qemu_fdt_getprop t c ''compatible''")
      case None
      then show ?thesis
        using assms Some Cons ch gp [of c]
        by (auto simp add: zynq7000_qspi_flash_node_clone_def Let_def fdt1_def)
    next
      case cv: (Some v)
      show ?thesis
      proof (cases "qemu_fdt_getprop_cell t q ''is-dual'' 0 = 1")
        case False
        then show ?thesis
          using assms Some Cons cv ch gp [of c]
          by (auto simp add: zynq7000_qspi_flash_node_clone_def Let_def fdt1_def)
      next
        case True
        have "name \<noteq> None"
          using assms Some Cons cv True ch gp [of c]
          unfolding zynq7000_qspi_flash_node_clone_def Let_def fdt1_def
          by (auto split: sum.splits)
        then show ?thesis using Some Cons cv True by simp
      qed
    qed
  qed
qed

lemma init_tree_zynq_Inr:
  assumes "arm_generic_fdt_init_tree dtl True between fdt = Inr r"
  shows "\<exists>t1 t2 t3 t5.
           zynq7000_qspi_flash_node_clone dtl fdt = Inr (t1, run_clone_name r) \<and>
           zynq7000_disable_gic_init t1 = Inr t2 \<and> between t2 = Inr t3 \<and> run_built r = t3 \<and>
           zynq7000_usb_nuke_phy
             (case run_clone_name r of None \<Rightarrow> t3
              | Some p \<Rightarrow> fdt_del_node t3 (fdt_path_offset t3 p)) = Inr t5 \<and>
           run_fdt r = t5 \<and>
           run_del_nodes r = (case run_clone_name r of None \<Rightarrow> [] | Some p \<Rightarrow> [p])"
proof -
  obtain t1 name where c: "zynq7000_qspi_flash_node_clone dtl fdt = Inr (t1, name)"
    using assms by (cases "zynq7000_qspi_flash_node_clone dtl fdt")
      (auto simp: arm_generic_fdt_init_tree_def)
  obtain t2 where g: "zynq7000_disable_gic_init t1 = Inr t2"
    using assms c by (cases "zynq7000_disable_gic_init t1")
      (auto simp: arm_generic_fdt_init_tree_def)
  obtain t3 where b: "between t2 = Inr t3"
    using assms c g by (cases "between t2") (auto simp: arm_generic_fdt_init_tree_def)
  define t4 where "t4 = (case name of None \<Rightarrow> t3
              | Some p \<Rightarrow> fdt_del_node t3 (fdt_path_offset t3 p))"
  obtain t5 where u: "zynq7000_usb_nuke_phy t4 = Inr t5"
    using assms c g b by (cases "zynq7000_usb_nuke_phy t4"; cases name)
      (auto simp: arm_generic_fdt_init_tree_def t4_def)
  have "r = \<lparr>run_clone_name = name, run_built = t3,
             run_del_nodes = (case name of None \<Rightarrow> [] | Some p \<Rightarrow> [p]), run_fdt = t5\<rparr>"
    using assms c g b u by (cases name) (auto simp: arm_generic_fdt_init_tree_def t4_def)
  then show ?thesis using c g b u by (simp add: t4_def)
qed

lemma init_tree_generic_Inr:
  assumes "arm_generic_fdt_init_tree dtl False between fdt = Inr r"
  shows "\<exists>t3. between fdt = Inr t3 \<and>
           r = \<lparr>run_clone_name = None, run_built = t3, run_del_nodes = [], run_fdt = t3\<rparr>"
  using assms by (cases "between fdt") (auto simp: arm_generic_fdt_init_tree_def)

section \<open>Properties of the tree patches\<close>

text \<open>
  C6. Take a run of \<open>arm_generic_fdt_init\<close> that completes, on a tree whose paths are
  distinct, where the stages between patching and cleanup keep the nodes they find and
  keep paths distinct. The clone name is set exactly when the machine is the Zynq-7000,
  a node compatible with \<open>xlnx,zynq-qspi-1.0\<close> exists, it has a child, its first child
  has a \<open>compatible\<close> property and \<open>is-dual\<close> is 1.

  When it is set, the named node is new (its path, when it has a \<open>/\<close>, is not a path of
  the tree given) and it is a node of the patched tree that the stages up to the Builder
  are run on. \<open>fdt_del_node\<close> is called once, for that path, on the tree these stages
  leave, and the USB patch of the result is the final tree. The node is in the tree the
  Builder leaves and not in the final tree. The removal adds no node and keeps, as they
  are, all nodes other than the named one and those below it; when no node lies below
  it, the tree after the removal is the tree the Builder left without the named node.

  When it is not set, \<open>fdt_del_node\<close> is not called, the patches before the Builder add
  no node, and the final tree is the tree the Builder left (after the USB patch, for the
  Zynq-7000), with the same nodes.

  In both cases every path of the tree given is a path of the tree the Builder leaves,
  and it is a path of the final tree unless it is the clone's path or below it.
\<close>

theorem qspi_dummy_removed_once:
  assumes run: "arm_generic_fdt_init_tree dtl zynq_7000 between fdt = Inr r"
    and wf: "distinct (map fst fdt)"
    and btw: "\<forall>t t'. between t = Inr t' \<longrightarrow>
                fst ` set t \<subseteq> fst ` set t' \<and> (distinct (map fst t) \<longrightarrow> distinct (map fst t'))"
  shows "(case run_clone_name r of
            None \<Rightarrow> run_del_nodes r = [] \<and> map fst (run_fdt r) = map fst (run_built r) \<and>
              (if zynq_7000 then zynq7000_usb_nuke_phy (run_built r) else Inr (run_built r)) =
                Inr (run_fdt r) \<and>
              (if zynq_7000
               then \<exists>t1 t2. zynq7000_qspi_flash_node_clone dtl fdt = Inr (t1, None) \<and>
                      zynq7000_disable_gic_init t1 = Inr t2 \<and> map fst t2 = map fst fdt \<and>
                      between t2 = Inr (run_built r)
               else between fdt = Inr (run_built r))
          | Some p \<Rightarrow>
              run_del_nodes r = [p] \<and> (CHR ''/'' \<in> set p \<longrightarrow> p \<notin> fst ` set fdt) \<and>
              p \<in> fst ` set (run_built r) \<and> p \<notin> fst ` set (run_fdt r) \<and>
              fst ` set (run_fdt r) \<subseteq> fst ` set (run_built r) \<and>
              {q \<in> fst ` set (run_built r). q \<noteq> p \<and> take (Suc (length p)) q \<noteq> p @ ''/''}
                \<subseteq> fst ` set (run_fdt r) \<and>
              (\<exists>t1 t2. zynq7000_qspi_flash_node_clone dtl fdt = Inr (t1, Some p) \<and>
                 zynq7000_disable_gic_init t1 = Inr t2 \<and> p \<in> fst ` set t2 \<and>
                 between t2 = Inr (run_built r)) \<and>
              zynq7000_usb_nuke_phy (fdt_del_node (run_built r) (fdt_path_offset (run_built r) p)) =
                Inr (run_fdt r) \<and>
              set (fdt_del_node (run_built r) (fdt_path_offset (run_built r) p))
                \<subseteq> set (run_built r) \<and>
              {n \<in> set (run_built r). fst n \<noteq> p \<and> take (Suc (length p)) (fst n) \<noteq> p @ ''/''}
                \<subseteq> set (fdt_del_node (run_built r) (fdt_path_offset (run_built r) p)) \<and>
              ((\<forall>n \<in> set (run_built r). take (Suc (length p)) (fst n) \<noteq> p @ ''/'') \<longrightarrow>
                 fdt_del_node (run_built r) (fdt_path_offset (run_built r) p) =
                   filter (\<lambda>n. fst n \<noteq> p) (run_built r)))
         \<and> (run_clone_name r \<noteq> None) =
             (zynq_7000 \<and>
              (\<exists>q c cs v. qemu_devtree_node_by_compatible fdt ''xlnx,zynq-qspi-1.0'' = Some q \<and>
                 qemu_devtree_get_children fdt q = c # cs \<and>
                 qemu_fdt_getprop fdt c ''compatible'' = Some v \<and>
                 qemu_fdt_getprop_cell fdt q ''is-dual'' 0 = 1))
         \<and> fst ` set fdt \<subseteq> fst ` set (run_built r)
         \<and> {q \<in> fst ` set fdt. \<forall>p. run_clone_name r = Some p \<longrightarrow>
                q \<noteq> p \<and> take (Suc (length p)) q \<noteq> p @ ''/''} \<subseteq> fst ` set (run_fdt r)"
proof (cases zynq_7000)
  case False
  with run have "arm_generic_fdt_init_tree dtl False between fdt = Inr r" by simp
  from init_tree_generic_Inr [OF this] obtain t3 where
    b: "between fdt = Inr t3" and
    r: "r = \<lparr>run_clone_name = None, run_built = t3, run_del_nodes = [], run_fdt = t3\<rparr>"
    by blast
  have "fst ` set fdt \<subseteq> fst ` set t3" using btw b by blast
  then show ?thesis using False b r by auto
next
  case True
  with run have "arm_generic_fdt_init_tree dtl True between fdt = Inr r" by simp
  from init_tree_zynq_Inr [OF this] obtain t1 t2 t3 t5 where
    c: "zynq7000_qspi_flash_node_clone dtl fdt = Inr (t1, run_clone_name r)" and
    g: "zynq7000_disable_gic_init t1 = Inr t2" and
    b: "between t2 = Inr t3" and
    rb: "run_built r = t3" and
    u: "zynq7000_usb_nuke_phy
             (case run_clone_name r of None \<Rightarrow> t3
              | Some p \<Rightarrow> fdt_del_node t3 (fdt_path_offset t3 p)) = Inr t5" and
    rf: "run_fdt r = t5" and
    rd: "run_del_nodes r = (case run_clone_name r of None \<Rightarrow> [] | Some p \<Rightarrow> [p])"
    by blast
  have iff: "(run_clone_name r \<noteq> None) =
             (\<exists>q c cs v. qemu_devtree_node_by_compatible fdt ''xlnx,zynq-qspi-1.0'' = Some q \<and>
                 qemu_devtree_get_children fdt q = c # cs \<and>
                 qemu_fdt_getprop fdt c ''compatible'' = Some v \<and>
                 qemu_fdt_getprop_cell fdt q ''is-dual'' 0 = 1)"
    by (rule clone_name_iff [OF c])
  have s1: "fst ` set fdt \<subseteq> fst ` set t1" using clone_paths(1) [OF c] .
  have d1: "distinct (map fst t1)" using clone_paths(2) [OF c wf] .
  have p2: "map fst t2 = map fst t1" using paths_zynq7000_disable_gic_init [OF g] .
  have d2: "distinct (map fst t2)" using d1 p2 by simp
  have d3: "distinct (map fst t3)" and s3: "fst ` set t2 \<subseteq> fst ` set t3"
    using btw b d2 by blast+
  have in3: "fst ` set fdt \<subseteq> fst ` set t3" using s1 paths_image [OF p2] s3 by blast
  have main: "case run_clone_name r of
            None \<Rightarrow> run_del_nodes r = [] \<and> map fst (run_fdt r) = map fst (run_built r) \<and>
              zynq7000_usb_nuke_phy (run_built r) = Inr (run_fdt r) \<and>
              (\<exists>t1 t2. zynq7000_qspi_flash_node_clone dtl fdt = Inr (t1, None) \<and>
                      zynq7000_disable_gic_init t1 = Inr t2 \<and> map fst t2 = map fst fdt \<and>
                      between t2 = Inr (run_built r))
          | Some p \<Rightarrow>
              run_del_nodes r = [p] \<and> (CHR ''/'' \<in> set p \<longrightarrow> p \<notin> fst ` set fdt) \<and>
              p \<in> fst ` set (run_built r) \<and> p \<notin> fst ` set (run_fdt r) \<and>
              fst ` set (run_fdt r) \<subseteq> fst ` set (run_built r) \<and>
              {q \<in> fst ` set (run_built r). q \<noteq> p \<and> take (Suc (length p)) q \<noteq> p @ ''/''}
                \<subseteq> fst ` set (run_fdt r) \<and>
              (\<exists>t1 t2. zynq7000_qspi_flash_node_clone dtl fdt = Inr (t1, Some p) \<and>
                 zynq7000_disable_gic_init t1 = Inr t2 \<and> p \<in> fst ` set t2 \<and>
                 between t2 = Inr (run_built r)) \<and>
              zynq7000_usb_nuke_phy (fdt_del_node (run_built r) (fdt_path_offset (run_built r) p)) =
                Inr (run_fdt r) \<and>
              set (fdt_del_node (run_built r) (fdt_path_offset (run_built r) p))
                \<subseteq> set (run_built r) \<and>
              {n \<in> set (run_built r). fst n \<noteq> p \<and> take (Suc (length p)) (fst n) \<noteq> p @ ''/''}
                \<subseteq> set (fdt_del_node (run_built r) (fdt_path_offset (run_built r) p)) \<and>
              ((\<forall>n \<in> set (run_built r). take (Suc (length p)) (fst n) \<noteq> p @ ''/'') \<longrightarrow>
                 fdt_del_node (run_built r) (fdt_path_offset (run_built r) p) =
                   filter (\<lambda>n. fst n \<noteq> p) (run_built r))"
  proof (cases "run_clone_name r")
    case None
    then have u3: "zynq7000_usb_nuke_phy t3 = Inr t5" using u by simp
    then have p5: "map fst t5 = map fst t3" by (rule paths_zynq7000_usb_nuke_phy)
    have "map fst t1 = map fst fdt" using clone_cases [OF c] None by simp
    then have "map fst t2 = map fst fdt" using p2 by simp
    then have "\<exists>t1 t2. zynq7000_qspi_flash_node_clone dtl fdt = Inr (t1, None) \<and>
                      zynq7000_disable_gic_init t1 = Inr t2 \<and> map fst t2 = map fst fdt \<and>
                      between t2 = Inr t3"
      using c g b None by auto
    then show ?thesis using None rd rb rf p5 u3 by simp
  next
    case (Some p)
    define t4 where "t4 = fdt_del_node t3 (fdt_path_offset t3 p)"
    have u4: "zynq7000_usb_nuke_phy t4 = Inr t5" using u Some by (simp add: t4_def)
    have p5: "fst ` set t5 = fst ` set t4"
      using paths_zynq7000_usb_nuke_phy [OF u4] by (rule paths_image)
    have "p \<in> fst ` set t1" using clone_paths(3) [OF c Some] .
    then have pin2: "p \<in> fst ` set t2" using paths_image [OF p2] by simp
    then have pin3: "p \<in> fst ` set t3" using s3 by blast
    have out4: "p \<notin> fst ` set t4" unfolding t4_def by (rule fdt_del_node_absent [OF d3])
    have fresh: "CHR ''/'' \<in> set p \<longrightarrow> p \<notin> fst ` set fdt"
      using clone_fresh [of dtl fdt t1 p] c Some by simp
    have nsub4: "set t4 \<subseteq> set t3"
      unfolding t4_def by (rule fdt_del_node_subset)
    then have sub4: "fst ` set t4 \<subseteq> fst ` set t3" by blast
    have nkeep4: "{n \<in> set t3. fst n \<noteq> p \<and> take (Suc (length p)) (fst n) \<noteq> p @ ''/''} \<subseteq> set t4"
      unfolding t4_def using fdt_del_node_keeps [of _ t3 p] by blast
    have keep4: "{q \<in> fst ` set t3. q \<noteq> p \<and> take (Suc (length p)) q \<noteq> p @ ''/''} \<subseteq> fst ` set t4"
    proof
      fix q assume "q \<in> {q \<in> fst ` set t3. q \<noteq> p \<and> take (Suc (length p)) q \<noteq> p @ ''/''}"
      then obtain n where n: "n \<in> set t3" "fst n = q" "q \<noteq> p" "take (Suc (length p)) q \<noteq> p @ ''/''"
        by auto
      then have "n \<in> set t4" using nkeep4 by blast
      then show "q \<in> fst ` set t4" using n(2) by force
    qed
    have leaf: "(\<forall>n \<in> set t3. take (Suc (length p)) (fst n) \<noteq> p @ ''/'') \<longrightarrow>
                 t4 = filter (\<lambda>n. fst n \<noteq> p) t3"
      unfolding t4_def using fdt_del_node_filter [OF d3 pin3] by blast
    have pipe: "\<exists>t1 t2. zynq7000_qspi_flash_node_clone dtl fdt = Inr (t1, Some p) \<and>
                 zynq7000_disable_gic_init t1 = Inr t2 \<and> p \<in> fst ` set t2 \<and>
                 between t2 = Inr t3"
      using c g b pin2 Some by auto
    have a: "run_del_nodes r = [p]" using rd Some by simp
    have out5: "p \<notin> fst ` set t5" using out4 p5 by simp
    have sub5: "fst ` set t5 \<subseteq> fst ` set t3" using sub4 p5 by simp
    have keep5: "{q \<in> fst ` set t3. q \<noteq> p \<and> take (Suc (length p)) q \<noteq> p @ ''/''} \<subseteq> fst ` set t5"
      using keep4 p5 by simp
    show ?thesis
      unfolding Some option.case rb rf t4_def [symmetric]
      by (insert a fresh pin3 out5 sub5 keep5 pipe u4 nsub4 nkeep4 leaf, (intro conjI; assumption))
  qed
  have input: "{q \<in> fst ` set fdt. \<forall>p. run_clone_name r = Some p \<longrightarrow>
                q \<noteq> p \<and> take (Suc (length p)) q \<noteq> p @ ''/''} \<subseteq> fst ` set (run_fdt r)"
  proof
    fix q
    assume "q \<in> {q \<in> fst ` set fdt. \<forall>p. run_clone_name r = Some p \<longrightarrow>
                q \<noteq> p \<and> take (Suc (length p)) q \<noteq> p @ ''/''}"
    then have q: "q \<in> fst ` set fdt"
      and qp: "\<And>p. run_clone_name r = Some p \<Longrightarrow>
                q \<noteq> p \<and> take (Suc (length p)) q \<noteq> p @ ''/''"
      by simp_all
    have q3: "q \<in> fst ` set t3" using q in3 by (rule subsetD [rotated])
    show "q \<in> fst ` set (run_fdt r)"
    proof (cases "run_clone_name r")
      case None
      with main have "map fst (run_fdt r) = map fst t3" by (simp add: rb)
      then have "fst ` set (run_fdt r) = fst ` set t3" by (rule paths_image)
      then show ?thesis using q3 by simp
    next
      case (Some p)
      with main have k: "{q \<in> fst ` set t3. q \<noteq> p \<and> take (Suc (length p)) q \<noteq> p @ ''/''}
                \<subseteq> fst ` set (run_fdt r)" by (simp add: rb)
      have "q \<in> {q \<in> fst ` set t3. q \<noteq> p \<and> take (Suc (length p)) q \<noteq> p @ ''/''}"
        using q3 qp [OF Some] by simp
      then show ?thesis using k by (rule subsetD [rotated])
    qed
  qed
  have m: "(case run_clone_name r of
            None \<Rightarrow> run_del_nodes r = [] \<and> map fst (run_fdt r) = map fst (run_built r) \<and>
              (if zynq_7000 then zynq7000_usb_nuke_phy (run_built r) else Inr (run_built r)) =
                Inr (run_fdt r) \<and>
              (if zynq_7000
               then \<exists>t1 t2. zynq7000_qspi_flash_node_clone dtl fdt = Inr (t1, None) \<and>
                      zynq7000_disable_gic_init t1 = Inr t2 \<and> map fst t2 = map fst fdt \<and>
                      between t2 = Inr (run_built r)
               else between fdt = Inr (run_built r))
          | Some p \<Rightarrow>
              run_del_nodes r = [p] \<and> (CHR ''/'' \<in> set p \<longrightarrow> p \<notin> fst ` set fdt) \<and>
              p \<in> fst ` set (run_built r) \<and> p \<notin> fst ` set (run_fdt r) \<and>
              fst ` set (run_fdt r) \<subseteq> fst ` set (run_built r) \<and>
              {q \<in> fst ` set (run_built r). q \<noteq> p \<and> take (Suc (length p)) q \<noteq> p @ ''/''}
                \<subseteq> fst ` set (run_fdt r) \<and>
              (\<exists>t1 t2. zynq7000_qspi_flash_node_clone dtl fdt = Inr (t1, Some p) \<and>
                 zynq7000_disable_gic_init t1 = Inr t2 \<and> p \<in> fst ` set t2 \<and>
                 between t2 = Inr (run_built r)) \<and>
              zynq7000_usb_nuke_phy (fdt_del_node (run_built r) (fdt_path_offset (run_built r) p)) =
                Inr (run_fdt r) \<and>
              set (fdt_del_node (run_built r) (fdt_path_offset (run_built r) p))
                \<subseteq> set (run_built r) \<and>
              {n \<in> set (run_built r). fst n \<noteq> p \<and> take (Suc (length p)) (fst n) \<noteq> p @ ''/''}
                \<subseteq> set (fdt_del_node (run_built r) (fdt_path_offset (run_built r) p)) \<and>
              ((\<forall>n \<in> set (run_built r). take (Suc (length p)) (fst n) \<noteq> p @ ''/'') \<longrightarrow>
                 fdt_del_node (run_built r) (fdt_path_offset (run_built r) p) =
                   filter (\<lambda>n. fst n \<noteq> p) (run_built r)))"
    using main True by simp
  show ?thesis using m iff True in3 rb input by simp
qed

theorem qspi_dummy_removed_once_witness:
  "\<not> isl (arm_generic_fdt_init_tree 1024 True Inr example_fdt) \<and>
   distinct (map fst example_fdt) \<and>
   run_clone_name (projr (arm_generic_fdt_init_tree 1024 True Inr example_fdt)) =
     Some ''/amba/spi@e000d000/ps7-qspi-dummy@0'' \<and>
   run_del_nodes (projr (arm_generic_fdt_init_tree 1024 True Inr example_fdt)) =
     [''/amba/spi@e000d000/ps7-qspi-dummy@0''] \<and>
   ''/amba/spi@e000d000/ps7-qspi-dummy@0'' \<notin> fst ` set example_fdt \<and>
   ''/amba/spi@e000d000/ps7-qspi-dummy@0'' \<in>
     fst ` set (run_built (projr (arm_generic_fdt_init_tree 1024 True Inr example_fdt))) \<and>
   ''/amba/spi@e000d000/ps7-qspi-dummy@0'' \<notin>
     fst ` set (run_fdt (projr (arm_generic_fdt_init_tree 1024 True Inr example_fdt))) \<and>
   map fst (run_fdt (projr (arm_generic_fdt_init_tree 1024 True Inr example_fdt))) =
     map fst example_fdt"
proof -
  have ok: "isl (arm_generic_fdt_init_tree 1024 True Inr example_fdt) = False"
    by code_simp
  then have run: "arm_generic_fdt_init_tree 1024 True Inr example_fdt =
      Inr (projr (arm_generic_fdt_init_tree 1024 True Inr example_fdt))"
    by simp
  have d: "distinct (map fst example_fdt)"
    by code_simp
  have btw: "\<forall>t t'. (Inr t :: error + fdt) = Inr t' \<longrightarrow>
                fst ` set t \<subseteq> fst ` set t' \<and> (distinct (map fst t) \<longrightarrow> distinct (map fst t'))"
    by simp
  have name: "run_clone_name (projr (arm_generic_fdt_init_tree 1024 True Inr example_fdt)) =
     Some ''/amba/spi@e000d000/ps7-qspi-dummy@0''"
    by code_simp
  have final: "map fst (run_fdt (projr (arm_generic_fdt_init_tree 1024 True Inr example_fdt))) =
     map fst example_fdt"
    by code_simp
  show ?thesis
    using qspi_dummy_removed_once [OF run d btw] ok d name final by simp
qed

text \<open>A tree with a USB controller gets the \<open>dr_mode\<close> property.\<close>

lemma usb_nuke_phy_example:
  "zynq7000_usb_nuke_phy
     [(''/'', []), (''/usb@e0002000'', [(''compatible'', ''xlnx,ps7-usb-1.00.a'' @ [NUL])])] =
   Inr [(''/'', []),
        (''/usb@e0002000'',
           [(''dr_mode'', ''host'' @ [NUL]), (''compatible'', ''xlnx,ps7-usb-1.00.a'' @ [NUL])])]"
  by code_simp

text \<open>
  C8. When no node other than the root is compatible with \<open>xlnx,ps7-usb-1.00.a\<close>,
  \<open>zynq7000_usb_nuke_phy\<close> returns the tree unchanged; when no node other than the root
  is named \<open>interrupt-controller\<close> (unit address aside), the interrupt-controller patch
  returns the tree unchanged. Neither ends the process.
\<close>

theorem quirk_target_absent_skipped:
  "((\<forall>n \<in> set (tl fdt). \<not> fdt_node_check_compatible n ''xlnx,ps7-usb-1.00.a'') \<longrightarrow>
      zynq7000_usb_nuke_phy fdt = Inr fdt) \<and>
   ((\<forall>n \<in> set (tl fdt).
        takeWhile (\<lambda>c. c \<noteq> CHR ''@'') (node_name (fst n)) \<noteq> ''interrupt-controller'') \<longrightarrow>
      zynq7000_disable_gic_init fdt = Inr fdt)"
proof (intro conjI impI)
  assume "\<forall>n \<in> set (tl fdt). \<not> fdt_node_check_compatible n ''xlnx,ps7-usb-1.00.a''"
  then have "find (\<lambda>n. fdt_node_check_compatible n ''xlnx,ps7-usb-1.00.a'') (tl fdt) = None"
    by (simp add: find_None_iff)
  then show "zynq7000_usb_nuke_phy fdt = Inr fdt"
    by (simp add: zynq7000_usb_nuke_phy_def qemu_devtree_node_by_compatible_def)
next
  assume "\<forall>n \<in> set (tl fdt).
        takeWhile (\<lambda>c. c \<noteq> CHR ''@'') (node_name (fst n)) \<noteq> ''interrupt-controller''"
  then have "find (\<lambda>n. takeWhile (\<lambda>c. c \<noteq> CHR ''@'') (node_name (fst n)) =
                  ''interrupt-controller'') (tl fdt) = None"
    unfolding find_None_iff by blast
  then show "zynq7000_disable_gic_init fdt = Inr fdt"
    by (simp add: zynq7000_disable_gic_init_def qemu_devtree_get_node_by_name_def)
qed


theorem quirk_target_absent_skipped_witness:
  "list_all (\<lambda>n. \<not> fdt_node_check_compatible n ''xlnx,ps7-usb-1.00.a'') (tl example_fdt) \<and>
   zynq7000_usb_nuke_phy example_fdt = Inr example_fdt \<and>
   list_all (\<lambda>n. takeWhile (\<lambda>c. c \<noteq> CHR ''@'') (node_name (fst n)) \<noteq> ''interrupt-controller'')
     (tl example_fdt) \<and>
   zynq7000_disable_gic_init example_fdt = Inr example_fdt"
proof -
  have a: "list_all (\<lambda>n. \<not> fdt_node_check_compatible n ''xlnx,ps7-usb-1.00.a'') (tl example_fdt)"
    by code_simp
  have b: "list_all (\<lambda>n. takeWhile (\<lambda>c. c \<noteq> CHR ''@'') (node_name (fst n)) \<noteq> ''interrupt-controller'')
     (tl example_fdt)"
    by code_simp
  show ?thesis
    using a b quirk_target_absent_skipped [of example_fdt]
    by (simp add: list_all_iff)
qed

section \<open>Properties of the secondary boot code\<close>

text \<open>
  A byte swap turns the memory image of one byte order into that of the other, so one
  call always registers the array it finds, converted from host to target order.
\<close>

lemma byte_masks:
  "(0xff :: 32 word) = mask 8"
  "(0xff00 :: 32 word) = push_bit 8 (mask 8)"
  "(0xff0000 :: 32 word) = push_bit 16 (mask 8)"
  by (simp_all add: mask_eq_exp_minus_1)

lemma bytes32_bswap32_little: "bytes32 LittleEndian (bswap32 x) = bytes32 BigEndian x"
  unfolding bytes32_def bswap32_def byte_masks
  apply simp
  apply (intro conjI)
     apply (rule bit_word_eqI, simp add: bit_simps, fastforce?)+
  done

lemma bytes32_bswap32_big: "bytes32 BigEndian (bswap32 x) = bytes32 LittleEndian x"
  unfolding bytes32_def bswap32_def byte_masks
  apply simp
  apply (intro conjI)
     apply (rule bit_word_eqI, simp add: bit_simps, fastforce?)+
  done

lemma bytes32_tswap32: "bytes32 host (tswap32 host target x) = bytes32 target x"
  by (cases host; cases target) (simp_all add: tswap32_def bytes32_bswap32_little bytes32_bswap32_big)

lemma arm_write_secondary_boot_blob:
  "roms (arm_write_secondary_boot host target s) =
     roms s @ [(''smpboot'', concat (map (bytes32 target) (zynq_smpboot s)), SMP_BOOT_ADDR)]"
proof -
  have "map (bytes32 host) (map (tswap32 host target) xs) = map (bytes32 target) xs" for xs
    by (simp add: bytes32_tswap32)
  then show ?thesis
    by (simp add: arm_write_secondary_boot_def rom_add_blob_fixed_def del: map_map)
qed

text \<open>
  C7, as the code has it. The Boot Preparer always records \<open>0xfffffff0\<close> as
  \<open>smp_loader_start\<close> and installs \<open>arm_write_secondary_boot\<close> as the hook of the boot
  descriptor. It hands the descriptor to the loader only when a kernel file name was
  given (line 633). In a run with a kernel file name, more than one CPU and the boot code
  array as the program text initialises it, one blob named \<open>smpboot\<close> is registered at
  address \<open>0xfffffff0\<close>: the 8 bytes that are the two instruction words \<open>0xe320f003\<close>
  (wfi) and \<open>0xeafffffd\<close> (branch back) in the byte order of the target, whatever the
  byte order of the host. In a run without a kernel file name nothing is registered,
  whatever the number of CPUs.
\<close>

theorem secondary_boot_blob:
  "(ms_kernel_filename machine \<noteq> None \<and> 1 < fdt_generic_num_cpus \<longrightarrow>
      roms (snd (arm_generic_fdt_init_boot host target machine ram_kernel_base ram_kernel_size
                   fdt_generic_num_cpus boot_state_init)) =
        [(''smpboot'', concat (map (bytes32 target) [0xe320f003, 0xeafffffd]), 0xfffffff0)])
   \<and> (ms_kernel_filename machine = None \<longrightarrow>
        snd (arm_generic_fdt_init_boot host target machine ram_kernel_base ram_kernel_size
               fdt_generic_num_cpus s) = s)
   \<and> concat (map (bytes32 target) [0xe320f003, 0xeafffffd]) =
       (case target of
          LittleEndian \<Rightarrow> [0x03, 0xf0, 0x20, 0xe3, 0xfd, 0xff, 0xff, 0xea]
        | BigEndian \<Rightarrow> [0xe3, 0x20, 0xf0, 0x03, 0xea, 0xff, 0xff, 0xfd])
   \<and> bi_smp_loader_start (fst (arm_generic_fdt_init_boot host target machine ram_kernel_base
         ram_kernel_size fdt_generic_num_cpus s)) = 0xfffffff0
   \<and> bi_write_secondary_boot (fst (arm_generic_fdt_init_boot host target machine
         ram_kernel_base ram_kernel_size fdt_generic_num_cpus s)) =
       Some (arm_write_secondary_boot host target)"
proof (intro conjI impI)
  assume "ms_kernel_filename machine \<noteq> None \<and> 1 < fdt_generic_num_cpus"
  then show "roms (snd (arm_generic_fdt_init_boot host target machine ram_kernel_base
                   ram_kernel_size fdt_generic_num_cpus boot_state_init)) =
        [(''smpboot'', concat (map (bytes32 target) [0xe320f003, 0xeafffffd]), 0xfffffff0)]"
    by (simp add: arm_generic_fdt_init_boot_def arm_load_kernel_def zero_binfo_def
          arm_write_secondary_boot_blob boot_state_init_def SMP_BOOT_ADDR_def)
next
  assume "ms_kernel_filename machine = None"
  then show "snd (arm_generic_fdt_init_boot host target machine ram_kernel_base ram_kernel_size
               fdt_generic_num_cpus s) = s"
    by (simp add: arm_generic_fdt_init_boot_def)
next
  show "concat (map (bytes32 target) [0xe320f003, 0xeafffffd]) =
       (case target of
          LittleEndian \<Rightarrow> [0x03, 0xf0, 0x20, 0xe3, 0xfd, 0xff, 0xff, 0xea]
        | BigEndian \<Rightarrow> [0xe3, 0x20, 0xf0, 0x03, 0xea, 0xff, 0xff, 0xfd])"
    by (cases target) (simp_all add: bytes32_def)
next
  show "bi_smp_loader_start (fst (arm_generic_fdt_init_boot host target machine ram_kernel_base
         ram_kernel_size fdt_generic_num_cpus s)) = 0xfffffff0"
    by (simp add: arm_generic_fdt_init_boot_def Let_def zero_binfo_def SMP_BOOT_ADDR_def)
next
  show "bi_write_secondary_boot (fst (arm_generic_fdt_init_boot host target machine
         ram_kernel_base ram_kernel_size fdt_generic_num_cpus s)) =
       Some (arm_write_secondary_boot host target)"
    by (simp add: arm_generic_fdt_init_boot_def Let_def zero_binfo_def)
qed

theorem secondary_boot_blob_witness:
  "ms_kernel_filename \<lparr>ms_ram_size = 0x40000000, ms_kernel_filename = Some ''zImage'',
        ms_kernel_cmdline = None, ms_initrd_filename = None\<rparr> \<noteq> None \<and> (1::nat) < 2 \<and>
   roms (snd (arm_generic_fdt_init_boot LittleEndian BigEndian
        \<lparr>ms_ram_size = 0x40000000, ms_kernel_filename = Some ''zImage'',
         ms_kernel_cmdline = None, ms_initrd_filename = None\<rparr> 0 0x40000000 2 boot_state_init)) =
     [(''smpboot'', [0xe3, 0x20, 0xf0, 0x03, 0xea, 0xff, 0xff, 0xfd], 0xfffffff0)] \<and>
   ms_kernel_filename \<lparr>ms_ram_size = 0x40000000, ms_kernel_filename = None,
        ms_kernel_cmdline = None, ms_initrd_filename = None\<rparr> = None \<and>
   snd (arm_generic_fdt_init_boot LittleEndian BigEndian
        \<lparr>ms_ram_size = 0x40000000, ms_kernel_filename = None,
         ms_kernel_cmdline = None, ms_initrd_filename = None\<rparr> 0 0x40000000 2 boot_state_init) =
     boot_state_init"
  using
    secondary_boot_blob [of "\<lparr>ms_ram_size = 0x40000000, ms_kernel_filename = Some ''zImage'',
        ms_kernel_cmdline = None, ms_initrd_filename = None\<rparr>" 2 LittleEndian BigEndian
        0 "0x40000000" boot_state_init]
    secondary_boot_blob [of "\<lparr>ms_ram_size = 0x40000000, ms_kernel_filename = None,
        ms_kernel_cmdline = None, ms_initrd_filename = None\<rparr>" 2 LittleEndian BigEndian
        0 "0x40000000" boot_state_init]
  by simp

text \<open>
  C7, as the claim states it for every multi-core configuration, fails: with two CPUs and
  no kernel file name no blob is deposited.
\<close>

theorem secondary_boot_without_kernel:
  "(1::nat) < 2 \<and>
   roms (snd (arm_generic_fdt_init_boot LittleEndian LittleEndian
        \<lparr>ms_ram_size = 0x40000000, ms_kernel_filename = None,
         ms_kernel_cmdline = None, ms_initrd_filename = None\<rparr> 0 0x40000000 2 boot_state_init)) =
     []"
  by (simp add: arm_generic_fdt_init_boot_def boot_state_init_def)

lemma smpboot_array_after_calls:
  assumes "host \<noteq> target"
  shows "zynq_smpboot (((arm_write_secondary_boot host target) ^^ n) boot_state_init) =
           (if even n then [0xe320f003, 0xeafffffd] else [0x03f020e3, 0xfdffffea])"
proof (induction n)
  case 0
  then show ?case by (simp add: boot_state_init_def)
next
  case (Suc n)
  have sw: "tswap32 host target = bswap32"
    using assms by (simp add: fun_eq_iff tswap32_def)
  have step: "zynq_smpboot (arm_write_secondary_boot host target s) =
                map (bswap32) (zynq_smpboot s)" for s
    by (simp add: arm_write_secondary_boot_def rom_add_blob_fixed_def sw)
  show ?case using Suc by (simp add: step bswap32_def)
qed

lemma smpboot_blob_of_call:
  assumes "host \<noteq> target"
  shows "last (roms (((arm_write_secondary_boot host target) ^^ Suc n) boot_state_init)) =
           (''smpboot'',
            concat (map (bytes32 (if even n then target else host)) [0xe320f003, 0xeafffffd]),
            0xfffffff0)"
proof -
  have a: "zynq_smpboot (((arm_write_secondary_boot host target) ^^ n) boot_state_init) =
           (if even n then [0xe320f003, 0xeafffffd] else [0x03f020e3, 0xfdffffea])"
    by (rule smpboot_array_after_calls [OF assms])
  have b: "last (roms (arm_write_secondary_boot host target s)) =
             (''smpboot'', concat (map (bytes32 host) (map bswap32 (zynq_smpboot s))), 0xfffffff0)"
    for s
  proof -
    have sw: "tswap32 host target = bswap32"
      using assms by (simp add: fun_eq_iff tswap32_def)
    show ?thesis
      by (simp add: arm_write_secondary_boot_def rom_add_blob_fixed_def sw SMP_BOOT_ADDR_def)
  qed
  have c: "last (roms (((arm_write_secondary_boot host target) ^^ Suc n) boot_state_init)) =
             (''smpboot'',
              concat (map (bytes32 host) (map bswap32
                (if even n then [0xe320f003, 0xeafffffd] else [0x03f020e3, 0xfdffffea]))),
              0xfffffff0)"
    by (simp only: funpow.simps o_apply b a)
  show ?thesis
    unfolding c using assms
    by (cases host; cases target) (simp_all add: bswap32_def bytes32_def)
qed

text \<open>
  C10. \<open>arm_write_secondary_boot\<close> swaps the global array in place. When host and target
  byte order differ, the first call registers the words in target order and leaves the
  array swapped; the second call swaps it back and registers the bytes of the words in
  host order, which are the bytes a target would read as \<open>0x03f020e3\<close> and \<open>0xfdffffea\<close>,
  not as the two instructions. The two calls register different bytes. In general the
  call after \<open>n\<close> earlier calls registers the target order when \<open>n\<close> is even and the
  host order when \<open>n\<close> is odd.
\<close>

theorem secondary_boot_second_call:
  assumes "host \<noteq> target"
  shows "roms (arm_write_secondary_boot host target boot_state_init) =
           [(''smpboot'', concat (map (bytes32 target) [0xe320f003, 0xeafffffd]), 0xfffffff0)]
       \<and> roms (arm_write_secondary_boot host target
                 (arm_write_secondary_boot host target boot_state_init)) =
           [(''smpboot'', concat (map (bytes32 target) [0xe320f003, 0xeafffffd]), 0xfffffff0),
            (''smpboot'', concat (map (bytes32 host) [0xe320f003, 0xeafffffd]), 0xfffffff0)]
       \<and> concat (map (bytes32 host) [0xe320f003, 0xeafffffd]) \<noteq>
           concat (map (bytes32 target) [0xe320f003, 0xeafffffd])
       \<and> concat (map (bytes32 host) [0xe320f003, 0xeafffffd]) =
           concat (map (bytes32 target) [0x03f020e3, 0xfdffffea])
       \<and> zynq_smpboot (arm_write_secondary_boot host target boot_state_init) =
           [0x03f020e3, 0xfdffffea]
       \<and> zynq_smpboot (arm_write_secondary_boot host target
                 (arm_write_secondary_boot host target boot_state_init)) =
           [0xe320f003, 0xeafffffd]
       \<and> (\<forall>n. last (roms (((arm_write_secondary_boot host target) ^^ Suc n) boot_state_init)) =
             (''smpboot'',
              concat (map (bytes32 (if even n then target else host)) [0xe320f003, 0xeafffffd]),
              0xfffffff0))"
proof -
  have "\<forall>n. last (roms (((arm_write_secondary_boot host target) ^^ Suc n) boot_state_init)) =
             (''smpboot'',
              concat (map (bytes32 (if even n then target else host)) [0xe320f003, 0xeafffffd]),
              0xfffffff0)"
    using smpboot_blob_of_call [OF assms] by blast
  moreover have
    "roms (arm_write_secondary_boot host target boot_state_init) =
           [(''smpboot'', concat (map (bytes32 target) [0xe320f003, 0xeafffffd]), 0xfffffff0)]
       \<and> roms (arm_write_secondary_boot host target
                 (arm_write_secondary_boot host target boot_state_init)) =
           [(''smpboot'', concat (map (bytes32 target) [0xe320f003, 0xeafffffd]), 0xfffffff0),
            (''smpboot'', concat (map (bytes32 host) [0xe320f003, 0xeafffffd]), 0xfffffff0)]
       \<and> concat (map (bytes32 host) [0xe320f003, 0xeafffffd]) \<noteq>
           concat (map (bytes32 target) [0xe320f003, 0xeafffffd])
       \<and> concat (map (bytes32 host) [0xe320f003, 0xeafffffd]) =
           concat (map (bytes32 target) [0x03f020e3, 0xfdffffea])
       \<and> zynq_smpboot (arm_write_secondary_boot host target boot_state_init) =
           [0x03f020e3, 0xfdffffea]
       \<and> zynq_smpboot (arm_write_secondary_boot host target
                 (arm_write_secondary_boot host target boot_state_init)) =
           [0xe320f003, 0xeafffffd]"
    using assms
    by (cases host; cases target)
       (simp_all add: arm_write_secondary_boot_def boot_state_init_def tswap32_def bswap32_def
          bytes32_def rom_add_blob_fixed_def SMP_BOOT_ADDR_def)
  ultimately show ?thesis by blast
qed

theorem secondary_boot_second_call_witness:
  "LittleEndian \<noteq> BigEndian \<and>
   roms (arm_write_secondary_boot LittleEndian BigEndian
          (arm_write_secondary_boot LittleEndian BigEndian boot_state_init)) =
     [(''smpboot'', [0xe3, 0x20, 0xf0, 0x03, 0xea, 0xff, 0xff, 0xfd], 0xfffffff0),
      (''smpboot'', [0x03, 0xf0, 0x20, 0xe3, 0xfd, 0xff, 0xff, 0xea], 0xfffffff0)]"
proof -
  have h: "LittleEndian \<noteq> BigEndian" by simp
  from secondary_boot_second_call [OF h]
  have "roms (arm_write_secondary_boot LittleEndian BigEndian
                 (arm_write_secondary_boot LittleEndian BigEndian boot_state_init)) =
           [(''smpboot'', concat (map (bytes32 BigEndian) [0xe320f003, 0xeafffffd]), 0xfffffff0),
            (''smpboot'', concat (map (bytes32 LittleEndian) [0xe320f003, 0xeafffffd]),
             0xfffffff0)]"
    by blast
  then show ?thesis using h by (simp add: bytes32_def)
qed

text \<open>When host and target agree, a call leaves the array as it was.\<close>

lemma same_order_idempotent_blob:
  "roms (arm_write_secondary_boot e e s) =
     roms s @ [(''smpboot'', concat (map (bytes32 e) (zynq_smpboot s)), SMP_BOOT_ADDR)]
   \<and> zynq_smpboot (arm_write_secondary_boot e e s) = zynq_smpboot s"
proof -
  have "tswap32 e e = (\<lambda>x. x)" by (simp add: fun_eq_iff tswap32_def)
  then show ?thesis by (simp add: arm_write_secondary_boot_def rom_add_blob_fixed_def)
qed

section \<open>Properties of the MDIO connect task\<close>

lemma dirname_neq: "p \<noteq> ''/'' \<Longrightarrow> dirname p \<noteq> p"
proof -
  assume a: "p \<noteq> ''/''"
  define d where "d = rev (drop 1 (dropWhile (\<lambda>c. c \<noteq> CHR ''/'') (rev p)))"
  have len: "length d \<le> length p - 1"
    using length_dropWhile_le [of "\<lambda>c. c \<noteq> CHR ''/''" "rev p"] by (simp add: d_def)
  have dn: "dirname p = (if d = [] then ''/'' else d)"
    by (simp add: dirname_def d_def)
  show ?thesis
  proof (cases "d = []")
    case True
    then show ?thesis using a dn by simp
  next
    case False
    then have "p \<noteq> []" using len by auto
    then have "length d < length p" using len by (cases p) auto
    then have "d \<noteq> p" by auto
    then show ?thesis using False dn by simp
  qed
qed

lemma getparent_neq: "qemu_devtree_getparent t p = Some q \<Longrightarrow> q \<noteq> p"
  using dirname_neq [of p] by (auto simp: qemu_devtree_getparent_def split: if_splits)

lemma mdio_wait_parent_absent:
  "bs_opaques s parent = None \<Longrightarrow>
   mdio_wait_parent parent Opaque s = (CoYield (MdioWaitParent parent), s)"
  by (simp add: mdio_wait_parent_def fdt_init_has_opaque_def)


lemma mdio_waits_while_absent:
  assumes np: "bs_opaques s parent = None"
    and oth: "\<forall>t. bs_opaques t parent = None \<longrightarrow> bs_opaques (others t) parent = None"
  shows "mdio_task_run n others node_path Opaque (MdioWaitParent parent) s = None"
  using np
proof (induction n arbitrary: s)
  case 0
  then show ?case by simp
next
  case (Suc n)
  have "bs_opaques (others s) parent = None" using Suc.prems oth by blast
  then show ?case using Suc by (simp add: mdio_wait_parent_absent)
qed

lemma mdio_entry_waits_while_absent:
  assumes gp: "qemu_devtree_getparent (bs_fdt s) node_path = Some parent"
    and np: "bs_opaques s parent = None"
    and oth: "\<forall>t. bs_opaques t parent = None \<longrightarrow> bs_opaques (others t) parent = None"
  shows "mdio_task_run n others node_path Opaque MdioEntry s = None"
proof (cases n)
  case 0
  then show ?thesis by simp
next
  case (Suc m)
  have ne: "parent \<noteq> node_path" using gp by (rule getparent_neq)
  define s1 where "s1 = fdt_init_set_opaque s node_path Opaque"
  have n1: "bs_opaques s1 parent = None"
    using np ne by (simp add: s1_def fdt_init_set_opaque_def)
  then have o: "bs_opaques (others s1) parent = None" using oth by blast
  have f: "bs_fdt s1 = bs_fdt s" by (simp add: s1_def fdt_init_set_opaque_def)
  have "zynq7000_mdio_phy_connect node_path Opaque MdioEntry s =
          (CoYield (MdioWaitParent parent), s1)"
    using gp f n1 by (simp add: s1_def [symmetric] mdio_wait_parent_absent)
  then show ?thesis
    using Suc mdio_waits_while_absent [OF o oth, of m node_path Opaque] by simp
qed






text \<open>
  C5, as the code has it. When the parent of the MDIO node is not registered and the
  other tasks never register it, the task is still waiting after any number of
  activations: it neither returns nor ends the process, and an activation at the wait
  leaves the state as it is and yields again. The code has no bound on the wait.
\<close>

theorem mdio_wait_has_no_bound:
  assumes gp: "qemu_devtree_getparent (bs_fdt s) node_path = Some parent"
    and np: "bs_opaques s parent = None"
    and oth: "\<forall>t. bs_opaques t parent = None \<longrightarrow> bs_opaques (others t) parent = None"
  shows "(\<forall>n. mdio_task_run n others node_path Opaque MdioEntry s = None)
       \<and> zynq7000_mdio_phy_connect node_path Opaque (MdioWaitParent parent) s =
           (CoYield (MdioWaitParent parent), s)"
  using mdio_entry_waits_while_absent [OF gp np oth] np
  by (simp add: mdio_wait_parent_absent)

theorem mdio_wait_has_no_bound_witness:
  "qemu_devtree_getparent (bs_fdt example_build_state) ''/gem/mdio'' = Some ''/gem'' \<and>
   bs_opaques example_build_state ''/gem'' = None \<and>
   mdio_task_run 1000 (\<lambda>s. s) ''/gem/mdio'' 7 MdioEntry example_build_state = None"
proof -
  have gp: "qemu_devtree_getparent (bs_fdt example_build_state) ''/gem/mdio'' = Some ''/gem''"
    by (simp add: example_build_state_def qemu_devtree_getparent_def dirname_def)
  have np: "bs_opaques example_build_state ''/gem'' = None"
    by (simp add: example_build_state_def)
  have oth: "\<forall>t. bs_opaques t ''/gem'' = None \<longrightarrow> bs_opaques ((\<lambda>s. s) t) ''/gem'' = None"
    by simp
  show ?thesis
    using gp np mdio_wait_has_no_bound [OF gp np oth, of 7] by simp
qed

text \<open>
  C5, as the claim states it, fails: in the example state, with no other task running,
  no number of activations ends the task, neither with a return nor with a fatal end.
\<close>

theorem mdio_wait_never_ends:
  "\<not> (\<exists>n r. mdio_task_run n (\<lambda>s. s) ''/gem/mdio'' 7 MdioEntry example_build_state = Some r)"
proof -
  have gp: "qemu_devtree_getparent (bs_fdt example_build_state) ''/gem/mdio'' = Some ''/gem''"
    by (simp add: example_build_state_def qemu_devtree_getparent_def dirname_def)
  have np: "bs_opaques example_build_state ''/gem'' = None"
    by (simp add: example_build_state_def)
  have oth: "\<forall>t. bs_opaques t ''/gem'' = None \<longrightarrow> bs_opaques ((\<lambda>s. s) t) ''/gem'' = None"
    by simp
  show ?thesis
    using mdio_entry_waits_while_absent [OF gp np oth, of _ 7] by simp
qed

end
